theory Spec2Isabelle
  imports Complex_Main "HOL-Library.Multiset" "HOL-Library.Word"
begin

section \<open>Numbers\<close>

text \<open>
  A double is a rational, an infinity or NaN. Rounding is to the nearest double, ties
  to the even significand, with 53 bits of precision above \<open>2^-1022\<close> and the fixed
  spacing \<open>2^-1074\<close> below. Signed zeros are not distinguished.
\<close>

datatype dbl = Fin rat | PInf | NInf | NaN

definition pow2 :: "int \<Rightarrow> rat" where
  "pow2 e = (if 0 \<le> e then 2 ^ nat e else 1 / 2 ^ nat (- e))"

fun ilog2 :: "nat \<Rightarrow> nat" where
  "ilog2 n = (if n < 2 then 0 else Suc (ilog2 (n div 2)))"

declare ilog2.simps [simp del]

text \<open>The binary exponent of a positive rational: \<open>2^e \<le> x < 2^(e+1)\<close>.\<close>

definition bexp :: "rat \<Rightarrow> int" where
  "bexp x = (if 1 \<le> x then int (ilog2 (nat \<lfloor>x\<rfloor>))
             else - int (Suc (ilog2 (nat \<lceil>1 / x\<rceil> - 1))))"

text \<open>Rounding to the nearest integer, ties to even.\<close>

definition rne :: "rat \<Rightarrow> int" where
  "rne q = (let m = \<lfloor>q\<rfloor>; f = q - of_int m in
            if f < 1 / 2 then m else if 1 / 2 < f then m + 1 else if even m then m else m + 1)"

definition rd_pos :: "rat \<Rightarrow> rat" where
  "rd_pos x = (let ulp = pow2 (max (bexp x) (- 1022) - 52) in of_int (rne (x / ulp)) * ulp)"

text \<open>The rounding of a rational to the grid of doubles, the exponent not limited above.\<close>

definition rd :: "rat \<Rightarrow> rat" where
  "rd x = (if x = 0 then 0 else if 0 < x then rd_pos x else - rd_pos (- x))"

text \<open>The double nearest to a rational: beyond the largest double it is an infinity.\<close>

definition fl :: "rat \<Rightarrow> dbl" where
  "fl x = (let r = rd x in
           if pow2 1024 \<le> r then PInf else if r \<le> - pow2 1024 then NInf else Fin r)"

fun dneg :: "dbl \<Rightarrow> dbl" where
  "dneg (Fin a) = Fin (- a)"
| "dneg PInf = NInf"
| "dneg NInf = PInf"
| "dneg NaN = NaN"

fun dabs :: "dbl \<Rightarrow> dbl" where
  "dabs (Fin a) = Fin \<bar>a\<bar>"
| "dabs PInf = PInf"
| "dabs NInf = PInf"
| "dabs NaN = NaN"

fun dadd :: "dbl \<Rightarrow> dbl \<Rightarrow> dbl" where
  "dadd (Fin a) (Fin b) = fl (a + b)"
| "dadd NaN _ = NaN"
| "dadd _ NaN = NaN"
| "dadd PInf NInf = NaN"
| "dadd NInf PInf = NaN"
| "dadd PInf _ = PInf"
| "dadd NInf _ = NInf"
| "dadd _ PInf = PInf"
| "dadd _ NInf = NInf"

definition dsub :: "dbl \<Rightarrow> dbl \<Rightarrow> dbl" where
  "dsub a b = dadd a (dneg b)"

fun dmul :: "dbl \<Rightarrow> dbl \<Rightarrow> dbl" where
  "dmul (Fin a) (Fin b) = fl (a * b)"
| "dmul NaN _ = NaN"
| "dmul _ NaN = NaN"
| "dmul (Fin a) PInf = (if a = 0 then NaN else if 0 < a then PInf else NInf)"
| "dmul (Fin a) NInf = (if a = 0 then NaN else if 0 < a then NInf else PInf)"
| "dmul PInf (Fin b) = (if b = 0 then NaN else if 0 < b then PInf else NInf)"
| "dmul NInf (Fin b) = (if b = 0 then NaN else if 0 < b then NInf else PInf)"
| "dmul PInf PInf = PInf"
| "dmul NInf NInf = PInf"
| "dmul PInf NInf = NInf"
| "dmul NInf PInf = NInf"

text \<open>\<open>a \<le> b\<close> on doubles; every comparison with NaN is false.\<close>

fun dle :: "dbl \<Rightarrow> dbl \<Rightarrow> bool" where
  "dle NaN _ = False"
| "dle _ NaN = False"
| "dle NInf _ = True"
| "dle _ PInf = True"
| "dle (Fin a) (Fin b) = (a \<le> b)"
| "dle _ _ = False"

text \<open>\<open>0 < a\<close> on doubles.\<close>

fun dpos :: "dbl \<Rightarrow> bool" where
  "dpos (Fin a) = (0 < a)"
| "dpos PInf = True"
| "dpos _ = False"

text \<open>
  A 64-bit integer of numpy is a word: its arithmetic wraps around. \<open>abs\<close> of the least
  integer is that integer again.
\<close>

type_synonym int64 = "64 word"

definition abs64 :: "int64 \<Rightarrow> int64" where
  "abs64 w = (if sint w < 0 then - w else w)"

text \<open>The conversion of a 64-bit integer to a double.\<close>

definition double_of_int64 :: "int64 \<Rightarrow> dbl" where
  "double_of_int64 w = fl (rat_of_int (sint w))"

text \<open>The doubles that the literals \<open>0.7\<close>, \<open>0.8\<close> and \<open>0.3\<close> denote.\<close>

definition lit_0_7 :: rat where
  "lit_0_7 = 3152519739159347 / 4503599627370496"

definition lit_0_8 :: rat where
  "lit_0_8 = 3602879701896397 / 4503599627370496"

definition lit_0_3 :: rat where
  "lit_0_3 = 5404319552844595 / 18014398509481984"

section \<open>Values, sample tables and column profiles\<close>

text \<open>
  A cell of a table. \<open>Null\<close> stands for Python's None and for NaN, \<open>NaT\<close> for the
  invalid timestamp; both count as missing. \<open>Num\<close> is a finite number (an integer or a
  double), \<open>PosInf\<close> and \<open>NegInf\<close> are the infinite doubles, \<open>Bool\<close> is a truth value,
  \<open>Stamp\<close> a timestamp in seconds since the epoch. A string is a list of characters
  with code points below 256. \<open>Obj\<close> is any other hashable Python object and
  \<open>Unhashable\<close> any unhashable one (a list, a dictionary).
\<close>

datatype val =
    Null | NaT | Num rat | PosInf | NegInf | Bool bool | Stamp rat | Str string
  | Obj nat | Unhashable nat

fun isnull :: "val \<Rightarrow> bool" where
  "isnull Null = True"
| "isnull NaT = True"
| "isnull _ = False"

fun is_str :: "val \<Rightarrow> bool" where
  "is_str (Str s) = True"
| "is_str _ = False"

fun hashable :: "val \<Rightarrow> bool" where
  "hashable (Unhashable n) = False"
| "hashable _ = True"

fun cell_of_dbl :: "dbl \<Rightarrow> val" where
  "cell_of_dbl (Fin a) = Num a"
| "cell_of_dbl PInf = PosInf"
| "cell_of_dbl NInf = NegInf"
| "cell_of_dbl NaN = Null"

definition cell_of_int64 :: "int64 \<Rightarrow> val" where
  "cell_of_int64 w = Num (rat_of_int (sint w))"

text \<open>
  A column of the sample table carries its dtype: 64-bit integers, doubles (NaN is the
  missing value), truth values, timestamps (None is the missing value), or objects of
  any kind for every other dtype. The integer, float and bool dtypes are the numeric
  ones. Column labels are taken to be distinct.
\<close>

datatype column =
    IntCol "int64 list"
  | FloatCol "dbl list"
  | BoolCol "bool list"
  | TimeCol "rat option list"
  | ObjCol "val list"

type_synonym sample = "(string \<times> column) list"

text \<open>
  The dictionary built per column by \<open>_analyze_columns\<close>, tagged by its 'type' entry.
  A numeric profile holds the minimum, the maximum and the samples in the column's
  own number type.
\<close>

datatype col_info =
    NumericI int64 int64 "int64 list"
  | NumericF dbl dbl "dbl list"
  | NumericB bool bool "bool list"
  | Datetime rat rat "rat list"
  | Categorical "val list" "val list"
  | Text "val list" "val list"
  | Mixed "val list"

fun samples :: "col_info \<Rightarrow> val list" where
  "samples (NumericI lo hi xs) = map cell_of_int64 xs"
| "samples (NumericF lo hi xs) = map cell_of_dbl xs"
| "samples (NumericB lo hi xs) = map Bool xs"
| "samples (Datetime lo hi xs) = map Stamp xs"
| "samples (Categorical xs us) = xs"
| "samples (Text xs us) = xs"
| "samples (Mixed xs) = xs"

fun is_textual :: "col_info \<Rightarrow> bool" where
  "is_textual (Categorical xs us) = True"
| "is_textual (Text xs us) = True"
| "is_textual _ = False"

fun is_numeric :: "col_info \<Rightarrow> bool" where
  "is_numeric (NumericI lo hi xs) = True"
| "is_numeric (NumericF lo hi xs) = True"
| "is_numeric (NumericB lo hi xs) = True"
| "is_numeric _ = False"

fun is_datetime :: "col_info \<Rightarrow> bool" where
  "is_datetime (Datetime lo hi xs) = True"
| "is_datetime _ = False"

datatype error = IndexError | ValueError | KeyError | TypeError

primrec somes :: "'a option list \<Rightarrow> 'a list" where
  "somes [] = []"
| "somes (x # xs) = (case x of None \<Rightarrow> somes xs | Some y \<Rightarrow> y # somes xs)"

text \<open>The least and the greatest element of a non-empty list for a given order.\<close>

fun least :: "('a \<Rightarrow> 'a \<Rightarrow> bool) \<Rightarrow> 'a \<Rightarrow> 'a list \<Rightarrow> 'a" where
  "least le d [] = d"
| "least le d (x # xs) = fold (\<lambda>y m. if le m y then m else y) xs x"

fun greatest :: "('a \<Rightarrow> 'a \<Rightarrow> bool) \<Rightarrow> 'a \<Rightarrow> 'a list \<Rightarrow> 'a" where
  "greatest le d [] = d"
| "greatest le d (x # xs) = fold (\<lambda>y m. if le y m then m else y) xs x"

definition sle :: "int64 \<Rightarrow> int64 \<Rightarrow> bool" where
  "sle a b \<longleftrightarrow> sint a \<le> sint b"

text \<open>\<open>Series.unique()\<close>: the distinct values in order of first appearance.\<close>

definition unique :: "'a list \<Rightarrow> 'a list" where
  "unique xs = rev (remdups (rev xs))"

text \<open>
  The body of the loop of \<open>_analyze_columns\<close> for one column: \<open>dropna\<close>, the test for
  an empty column, then the dispatch on the dtype. For a column of objects
  \<open>unique()\<close> hashes the values, and raises TypeError on an unhashable one. The
  product \<open>len(col_data) * 0.8\<close> is a product of doubles.
\<close>

fun analyze_column :: "column \<Rightarrow> error + col_info" where
  "analyze_column (IntCol xs) =
     (let col_data = xs in
      if length col_data = 0 then Inr (Mixed [])
      else Inr (NumericI (least sle 0 col_data) (greatest sle 0 col_data) col_data))"
| "analyze_column (FloatCol xs) =
     (let col_data = filter (\<lambda>x. x \<noteq> NaN) xs in
      if length col_data = 0 then Inr (Mixed [])
      else Inr (NumericF (least dle NaN col_data) (greatest dle NaN col_data) col_data))"
| "analyze_column (BoolCol xs) =
     (let col_data = xs in
      if length col_data = 0 then Inr (Mixed [])
      else Inr (NumericB (least (\<le>) False col_data) (greatest (\<le>) False col_data) col_data))"
| "analyze_column (TimeCol xs) =
     (let col_data = somes xs in
      if length col_data = 0 then Inr (Mixed [])
      else Inr (Datetime (least (\<le>) 0 col_data) (greatest (\<le>) 0 col_data) col_data))"
| "analyze_column (ObjCol xs) =
     (let col_data = filter (\<lambda>v. \<not> isnull v) xs in
      if length col_data = 0 then Inr (Mixed [])
      else if list_ex (\<lambda>v. \<not> hashable v) col_data then Inl TypeError
      else let unique_vals = unique col_data in
        if rat_of_nat (length unique_vals) < rd (rd (rat_of_nat (length col_data)) * lit_0_8)
        then Inr (Categorical col_data unique_vals)
        else Inr (Text col_data unique_vals))"

text \<open>The loop over the columns; the first error ends it.\<close>

fun analyze_columns :: "sample \<Rightarrow> error + (string \<times> col_info) list" where
  "analyze_columns [] = Inr []"
| "analyze_columns ((col, c) # rest) =
     (case analyze_column c of
        Inl e \<Rightarrow> Inl e
      | Inr info \<Rightarrow>
          (case analyze_columns rest of
             Inl e \<Rightarrow> Inl e
           | Inr column_info \<Rightarrow> Inr ((col, info) # column_info)))"

text \<open>The non-null values of a column, as cells.\<close>

fun non_null :: "column \<Rightarrow> val list" where
  "non_null (IntCol xs) = map cell_of_int64 xs"
| "non_null (FloatCol xs) = map cell_of_dbl (filter (\<lambda>x. x \<noteq> NaN) xs)"
| "non_null (BoolCol xs) = map Bool xs"
| "non_null (TimeCol xs) = map Stamp (somes xs)"
| "non_null (ObjCol xs) = filter (\<lambda>v. \<not> isnull v) xs"

section \<open>The random source and Python's primitives\<close>

text \<open>
  The process-wide random generator is an infinite sequence of raw draws; every call
  of a primitive of the \<open>random\<close> module (and of \<open>np.random.choice\<close>) consumes the next
  draw. Nothing is assumed about the sequence, so a property proved for every
  sequence holds for every run. An event of probability \<open>p\<close> in the source,
  \<open>random.random() < p\<close>, is the event that the unit draw lies below the double \<open>p\<close>;
  a uniform choice from a list is the element at the index given by the draw.
\<close>

type_synonym rng = "nat \<Rightarrow> nat"

definition rng_next :: "rng \<Rightarrow> rng" where
  "rng_next g = (\<lambda>i. g (Suc i))"

definition rbind :: "error + ('a \<times> rng) \<Rightarrow> ('a \<Rightarrow> rng \<Rightarrow> error + ('b \<times> rng)) \<Rightarrow> error + ('b \<times> rng)" where
  "rbind m f = (case m of Inl e \<Rightarrow> Inl e | Inr (x, g) \<Rightarrow> f x g)"

text \<open>\<open>random.random()\<close>: a multiple of \<open>2^-53\<close> in \<open>[0, 1)\<close>.\<close>

definition py_random :: "rng \<Rightarrow> rat \<times> rng" where
  "py_random g = (rat_of_nat (g 0 mod 2 ^ 53) / 2 ^ 53, rng_next g)"

text \<open>\<open>random.uniform(a, b)\<close> is \<open>a + (b - a) * random()\<close>, here on two doubles.\<close>

definition py_uniform :: "dbl \<Rightarrow> dbl \<Rightarrow> rng \<Rightarrow> dbl \<times> rng" where
  "py_uniform a b g = (case py_random g of (u, g') \<Rightarrow> (dadd a (dmul (dsub b a) (Fin u)), g'))"

text \<open>
  The same on two 64-bit integers of numpy: the difference wraps around, its product
  with the draw and the sum are doubles.
\<close>

definition py_uniform_int64 :: "int64 \<Rightarrow> int64 \<Rightarrow> rng \<Rightarrow> dbl \<times> rng" where
  "py_uniform_int64 a b g =
     (case py_random g of (u, g') \<Rightarrow>
        (dadd (double_of_int64 a) (dmul (double_of_int64 (b - a)) (Fin u)), g'))"

text \<open>\<open>random.choice(seq)\<close> raises IndexError on an empty sequence.\<close>

definition py_choice :: "'a list \<Rightarrow> rng \<Rightarrow> error + ('a \<times> rng)" where
  "py_choice xs g =
     (if xs = [] then Inl IndexError else Inr (xs ! (g 0 mod length xs), rng_next g))"

text \<open>\<open>random.randint(a, b)\<close> raises ValueError when the range is empty.\<close>

definition py_randint :: "int \<Rightarrow> int \<Rightarrow> rng \<Rightarrow> error + (int \<times> rng)" where
  "py_randint a b g =
     (if b < a then Inl ValueError
      else Inr (a + int (g 0 mod nat (b - a + 1)), rng_next g))"

text \<open>\<open>random.choices(population, k=k)\<close>: \<open>k\<close> independent choices.\<close>

fun py_choices :: "'a list \<Rightarrow> nat \<Rightarrow> rng \<Rightarrow> error + ('a list \<times> rng)" where
  "py_choices pop 0 g = Inr ([], g)"
| "py_choices pop (Suc k) g =
     rbind (py_choice pop g) (\<lambda>x g1.
     rbind (py_choices pop k g1) (\<lambda>xs g2. Inr (x # xs, g2)))"

text \<open>
  \<open>np.random.choice(index, size=k, replace=True)\<close> over an index \<open>0..n-1\<close>: a negative
  size is an error, and so is a positive size on an empty index.
\<close>

definition np_choice :: "nat \<Rightarrow> int \<Rightarrow> rng \<Rightarrow> error + (nat list \<times> rng)" where
  "np_choice n k g =
     (if k < 0 then Inl ValueError
      else if n = 0 \<and> 0 < k then Inl ValueError
      else py_choices [0..<n] (nat k) g)"

text \<open>\<open>int(x)\<close> truncates towards zero.\<close>

definition py_int :: "rat \<Rightarrow> int" where
  "py_int x = (if 0 \<le> x then \<lfloor>x\<rfloor> else \<lceil>x\<rceil>)"

text \<open>
  \<open>int(n * rate)\<close> for a row or cell count \<open>n\<close> and a rate, which is a double: the count
  is converted to a double and the product is rounded to a double before it is
  truncated. A count is below \<open>2^63\<close>, so neither the conversion nor, for a rate of
  at most \<open>2^960\<close>, the product leaves the range of the doubles; beyond that the
  model does not follow the source, where \<open>int\<close> of an infinity raises OverflowError.
\<close>

definition py_count :: "nat \<Rightarrow> rat \<Rightarrow> int" where
  "py_count n rate = py_int (rd (rd (rat_of_nat n) * rate))"

text \<open>\<open>for _ in range(n)\<close> over a state that each iteration updates, or fails.\<close>

fun repeat_m :: "nat \<Rightarrow> ('s \<Rightarrow> rng \<Rightarrow> error + ('s \<times> rng)) \<Rightarrow> 's \<Rightarrow> rng \<Rightarrow> error + ('s \<times> rng)" where
  "repeat_m 0 f s g = Inr (s, g)"
| "repeat_m (Suc n) f s g = rbind (f s g) (repeat_m n f)"

subsection \<open>Strings\<close>

text \<open>
  \<open>str.upper\<close> and \<open>str.lower\<close> follow the case mappings of Unicode, which are not part
  of this program: the two functions are parameters of the model. On strings of ASCII
  characters they are \<open>ascii_case\<close>.
\<close>

record strlib =
  str_upper :: "string \<Rightarrow> string"
  str_lower :: "string \<Rightarrow> string"

definition upper_char :: "char \<Rightarrow> char" where
  "upper_char c = (let n = (of_char c :: nat) in if 97 \<le> n \<and> n \<le> 122 then char_of (n - 32) else c)"

definition lower_char :: "char \<Rightarrow> char" where
  "lower_char c = (let n = (of_char c :: nat) in if 65 \<le> n \<and> n \<le> 90 then char_of (n + 32) else c)"

definition ascii_case :: strlib where
  "ascii_case = \<lparr>str_upper = map upper_char, str_lower = map lower_char\<rparr>"

text \<open>\<open>s.replace(a, b)\<close> for a one-character \<open>a\<close>.\<close>

definition replace_char :: "char \<Rightarrow> string \<Rightarrow> string \<Rightarrow> string" where
  "replace_char a b s = concat (map (\<lambda>c. if c = a then b else [c]) s)"

definition digit_char :: "nat \<Rightarrow> char" where
  "digit_char d = char_of (48 + d)"

fun str_nat :: "nat \<Rightarrow> string" where
  "str_nat n = (if n < 10 then [digit_char n] else str_nat (n div 10) @ [digit_char (n mod 10)])"

declare str_nat.simps [simp del]

definition py_str :: "int \<Rightarrow> string" where
  "py_str i = (if i < 0 then CHR ''-'' # str_nat (nat (- i)) else str_nat (nat i))"

definition ascii_letters :: string where
  "ascii_letters = ''abcdefghijklmnopqrstuvwxyzABCDEFGHIJKLMNOPQRSTUVWXYZ''"

definition digits :: string where
  "digits = ''0123456789''"

section \<open>Synthesis of values and expansion\<close>

definition generate_text_variation :: "val \<Rightarrow> rng \<Rightarrow> error + (val \<times> rng)" where
  "generate_text_variation original_text g =
     (case original_text of
        Str s \<Rightarrow>
          if length s = 0 then Inr (original_text, g)
          else
            rbind (py_randint 1 999 g) (\<lambda>n g1.
            rbind (py_choice ['' Jr'', '' Sr'', '' II'', '' Inc'', '' LLC''] g1) (\<lambda>suffix g2.
            rbind (py_choices ascii_letters (length s) g2) (\<lambda>letters g3.
            rbind (py_choice
                     [s @ py_str n,
                      replace_char CHR '' '' ''_'' s,
                      s @ suffix,
                      letters] g3) (\<lambda>v g4. Inr (Str v, g4)))))
      | _ \<Rightarrow> Inr (original_text, g))"

text \<open>
  For a numeric column of truth values the interpolation subtracts two numpy
  booleans, which raises TypeError. The seconds of a timestamp are the nearest double,
  and the timestamp of a finite double of seconds is that instant (pandas rounds both
  conversions, to micro- and to nanoseconds). A timestamp of pandas lies within
  \<open>2^63\<close> nanoseconds of the epoch, so the interpolation between two of them is
  finite.
\<close>

definition generate_similar_value :: "col_info \<Rightarrow> rng \<Rightarrow> error + (val \<times> rng)" where
  "generate_similar_value col_info g =
     (if length (samples col_info) = 0 then Inr (Null, g)
      else case col_info of
        NumericI min_val max_val xs \<Rightarrow>
          (case py_random g of (u, g1) \<Rightarrow>
             if u < lit_0_7 then py_choice (samples col_info) g1
             else (case py_uniform_int64 min_val max_val g1 of (x, g2) \<Rightarrow> Inr (cell_of_dbl x, g2)))
      | NumericF min_val max_val xs \<Rightarrow>
          (case py_random g of (u, g1) \<Rightarrow>
             if u < lit_0_7 then py_choice (samples col_info) g1
             else (case py_uniform min_val max_val g1 of (x, g2) \<Rightarrow> Inr (cell_of_dbl x, g2)))
      | NumericB min_val max_val xs \<Rightarrow>
          (case py_random g of (u, g1) \<Rightarrow>
             if u < lit_0_7 then py_choice (samples col_info) g1
             else Inl TypeError)
      | Datetime min_date max_date xs \<Rightarrow>
          (case py_random g of (u, g1) \<Rightarrow>
             if u < lit_0_7 then py_choice (samples col_info) g1
             else (case py_uniform (fl min_date) (fl max_date) g1 of
                     (Fin x, g2) \<Rightarrow> Inr (Stamp x, g2)
                   | (_, g2) \<Rightarrow> Inr (NaT, g2)))
      | Categorical xs unique_values \<Rightarrow> py_choice unique_values g
      | Text xs unique_values \<Rightarrow>
          rbind (py_choice xs g) (\<lambda>sample_text g1.
            case py_random g1 of (u, g2) \<Rightarrow>
              if u < lit_0_8 then Inr (sample_text, g2)
              else generate_text_variation sample_text g2)
      | Mixed xs \<Rightarrow> py_choice xs g)"

text \<open>
  A working table: the column labels and the rows, each row holding one cell per
  column. The row labels are \<open>0..len-1\<close> in every table the pipeline builds
  (\<open>pd.DataFrame\<close> of a list, \<open>ignore_index=True\<close>, \<open>reset_index\<close>).
\<close>

record frame =
  columns :: "string list"
  rows :: "val list list"

text \<open>The inner loop of \<open>_expand_data\<close>: one record, a cell per entry of the profile map.\<close>

fun new_record :: "(string \<times> col_info) list \<Rightarrow> rng \<Rightarrow> error + ((string \<times> val) list \<times> rng)" where
  "new_record [] g = Inr ([], g)"
| "new_record ((col, info) # rest) g =
     rbind (generate_similar_value info g) (\<lambda>v g1.
     rbind (new_record rest g1) (\<lambda>r g2. Inr ((col, v) # r, g2)))"

fun expanded_records :: "(string \<times> col_info) list \<Rightarrow> nat \<Rightarrow> rng \<Rightarrow> error + ((string \<times> val) list list \<times> rng)" where
  "expanded_records column_types 0 g = Inr ([], g)"
| "expanded_records column_types (Suc n) g =
     rbind (new_record column_types g) (\<lambda>r g1.
     rbind (expanded_records column_types n g1) (\<lambda>rs g2. Inr (r # rs, g2)))"

text \<open>
  \<open>pd.DataFrame(records)\<close> for a list of dictionaries that all have the same keys in
  the same order: the columns are the keys of the records, so an empty list gives a
  table with no rows and no columns.
\<close>

definition DataFrame :: "(string \<times> val) list list \<Rightarrow> frame" where
  "DataFrame records =
     (case records of
        [] \<Rightarrow> \<lparr>columns = [], rows = []\<rparr>
      | r # _ \<Rightarrow> \<lparr>columns = map fst r, rows = map (map snd) records\<rparr>)"

text \<open>\<open>range(target_rows)\<close> is empty for a negative \<open>target_rows\<close>.\<close>

definition expand_data :: "(string \<times> col_info) list \<Rightarrow> int \<Rightarrow> rng \<Rightarrow> error + (frame \<times> rng)" where
  "expand_data column_types target_rows g =
     rbind (expanded_records column_types (nat target_rows) g) (\<lambda>records g1.
       Inr (DataFrame records, g1))"

section \<open>The corruption passes\<close>

fun col_index :: "string list \<Rightarrow> string \<Rightarrow> nat option" where
  "col_index [] c = None"
| "col_index (x # xs) c = (if x = c then Some 0 else map_option Suc (col_index xs c))"

text \<open>Reading a cell of a row by its column label; a missing label is a KeyError.\<close>

definition row_get :: "string list \<Rightarrow> val list \<Rightarrow> string \<Rightarrow> error + val" where
  "row_get cs row c = (case col_index cs c of None \<Rightarrow> Inl KeyError | Some j \<Rightarrow> Inr (row ! j))"

definition row_set :: "string list \<Rightarrow> val list \<Rightarrow> string \<Rightarrow> val \<Rightarrow> val list" where
  "row_set cs row c v = (case col_index cs c of None \<Rightarrow> row | Some j \<Rightarrow> row[j := v])"

text \<open>
  \<open>df.at[row_idx, col] = v\<close>. Every call passes a row index drawn by
  \<open>randint(0, len(df) - 1)\<close>, which is a row of the table. A label that is not a
  column of the table makes pandas add the column, empty in the other rows.
\<close>

definition at_set :: "frame \<Rightarrow> nat \<Rightarrow> string \<Rightarrow> val \<Rightarrow> frame" where
  "at_set df row_idx col v =
     (case col_index (columns df) col of
        Some j \<Rightarrow> df\<lparr>rows := (rows df)[row_idx := (rows df ! row_idx)[j := v]]\<rparr>
      | None \<Rightarrow> \<lparr>columns = columns df @ [col],
                 rows = (map (\<lambda>r. r @ [Null]) (rows df))[row_idx := (rows df ! row_idx) @ [v]]\<rparr>)"

definition at_get :: "frame \<Rightarrow> nat \<Rightarrow> string \<Rightarrow> error + val" where
  "at_get df row_idx col =
     (if row_idx < length (rows df) then row_get (columns df) (rows df ! row_idx) col
      else Inl KeyError)"

definition text_cols :: "(string \<times> col_info) list \<Rightarrow> string list" where
  "text_cols column_types = map fst (filter (\<lambda>(col, info). is_textual info) column_types)"

definition numeric_cols :: "(string \<times> col_info) list \<Rightarrow> string list" where
  "numeric_cols column_types = map fst (filter (\<lambda>(col, info). is_numeric info) column_types)"

definition datetime_cols :: "(string \<times> col_info) list \<Rightarrow> string list" where
  "datetime_cols column_types = map fst (filter (\<lambda>(col, info). is_datetime info) column_types)"

subsection \<open>Pass 1: duplicates\<close>

text \<open>The body of the loop over the drawn indices: the copy of one row, perhaps altered.\<close>

definition make_duplicate :: "strlib \<Rightarrow> (string \<times> col_info) list \<Rightarrow> frame \<Rightarrow> nat \<Rightarrow> rng \<Rightarrow> error + (val list \<times> rng)" where
  "make_duplicate L column_types df idx g =
     (if length (rows df) \<le> idx then Inl IndexError
      else let duplicate = rows df ! idx in
        case py_random g of (u, g1) \<Rightarrow>
          if u < lit_0_3 then
            (if text_cols column_types \<noteq> [] then
               rbind (py_choice (text_cols column_types) g1) (\<lambda>col_to_modify g2.
                 case row_get (columns df) duplicate col_to_modify of
                   Inl e \<Rightarrow> Inl e
                 | Inr (Str original_val) \<Rightarrow>
                     rbind (py_choice
                              [original_val @ '' '',
                               str_upper L original_val,
                               str_lower L original_val,
                               replace_char CHR '' '' '''' original_val] g2) (\<lambda>m g3.
                       Inr (row_set (columns df) duplicate col_to_modify (Str m), g3))
                 | Inr _ \<Rightarrow> Inr (duplicate, g2))
             else Inr (duplicate, g1))
          else Inr (duplicate, g1))"

fun duplicates :: "strlib \<Rightarrow> (string \<times> col_info) list \<Rightarrow> frame \<Rightarrow> nat list \<Rightarrow> rng \<Rightarrow> error + (val list list \<times> rng)" where
  "duplicates L column_types df [] g = Inr ([], g)"
| "duplicates L column_types df (idx # idxs) g =
     rbind (make_duplicate L column_types df idx g) (\<lambda>d g1.
     rbind (duplicates L column_types df idxs g1) (\<lambda>ds g2. Inr (d # ds, g2)))"

text \<open>
  \<open>pd.concat([df, pd.DataFrame(duplicates)], ignore_index=True)\<close>: the copies carry the
  labels of \<open>df\<close>, so the result has the columns of \<open>df\<close> and its rows followed by the copies.
\<close>

definition add_smart_duplicates :: "strlib \<Rightarrow> (string \<times> col_info) list \<Rightarrow> frame \<Rightarrow> rat \<Rightarrow> rng \<Rightarrow> error + (frame \<times> rng)" where
  "add_smart_duplicates L column_types df rate g =
     (let num_duplicates = py_count (length (rows df)) rate in
      rbind (np_choice (length (rows df)) num_duplicates g) (\<lambda>duplicate_indices g1.
      rbind (duplicates L column_types df duplicate_indices g1) (\<lambda>ds g2.
        Inr (df\<lparr>rows := rows df @ ds\<rparr>, g2))))"

subsection \<open>Pass 2: nulls\<close>

definition null_prone_cols :: "(string \<times> col_info) list \<Rightarrow> string list" where
  "null_prone_cols column_types =
     concat (map (\<lambda>(col, info). if is_textual info then [col, col, col] else [col]) column_types)"

definition null_step :: "(string \<times> col_info) list \<Rightarrow> frame \<Rightarrow> rng \<Rightarrow> error + (frame \<times> rng)" where
  "null_step column_types df g =
     rbind (py_randint 0 (int (length (rows df)) - 1) g) (\<lambda>row_idx g1.
     rbind (py_choice (null_prone_cols column_types) g1) (\<lambda>col_name g2.
       Inr (at_set df (nat row_idx) col_name Null, g2)))"

definition add_strategic_nulls :: "(string \<times> col_info) list \<Rightarrow> frame \<Rightarrow> rat \<Rightarrow> rng \<Rightarrow> error + (frame \<times> rng)" where
  "add_strategic_nulls column_types df rate g =
     (let total_cells = length (rows df) * length (columns df);
          num_nulls = py_count total_cells rate
      in repeat_m (nat num_nulls) (null_step column_types) df g)"

subsection \<open>Pass 3: wrong ranges\<close>

text \<open>
  The five candidates, computed in the number type of the column's profile: on 64-bit
  integers the arithmetic wraps around, on doubles it rounds and may reach an
  infinity, and on numpy booleans the subtraction raises TypeError. A profile of
  another kind has no minimum; none is ever looked up, since the label comes from the
  numeric entries of the dictionary.
\<close>

fun wrong_values :: "col_info \<Rightarrow> error + val list" where
  "wrong_values (NumericI mn mx xs) =
     Inr [cell_of_int64 (mn - abs64 (mx - mn)),
          cell_of_int64 (mx + abs64 (mx - mn)),
          Num (- 999999),
          Num 999999,
          (if 0 < sint mn then Num 0 else Num (- 1))]"
| "wrong_values (NumericF mn mx xs) =
     Inr [cell_of_dbl (dsub mn (dabs (dsub mx mn))),
          cell_of_dbl (dadd mx (dabs (dsub mx mn))),
          Num (- 999999),
          Num 999999,
          (if dpos mn then Num 0 else Num (- 1))]"
| "wrong_values (NumericB mn mx xs) = Inl TypeError"
| "wrong_values _ = Inl KeyError"

definition range_step :: "(string \<times> col_info) list \<Rightarrow> frame \<Rightarrow> rng \<Rightarrow> error + (frame \<times> rng)" where
  "range_step column_types df g =
     rbind (py_randint 0 (int (length (rows df)) - 1) g) (\<lambda>row_idx g1.
       if numeric_cols column_types \<noteq> [] then
         rbind (py_choice (numeric_cols column_types) g1) (\<lambda>col g2.
           case map_of column_types col of
             None \<Rightarrow> Inl KeyError
           | Some col_info \<Rightarrow>
               (case wrong_values col_info of
                  Inl e \<Rightarrow> Inl e
                | Inr ws \<Rightarrow>
                    rbind (py_choice ws g2) (\<lambda>w g3.
                      Inr (at_set df (nat row_idx) col w, g3))))
       else Inr (df, g1))"

definition add_wrong_ranges :: "(string \<times> col_info) list \<Rightarrow> frame \<Rightarrow> rat \<Rightarrow> rng \<Rightarrow> error + (frame \<times> rng)" where
  "add_wrong_ranges column_types df rate g =
     (let num_wrong = py_count (length (rows df)) rate
      in repeat_m (nat num_wrong) (range_step column_types) df g)"

subsection \<open>Pass 4: wrong timestamps\<close>

text \<open>1900-01-01, 2100-01-01, NaT and 1970-01-01, in seconds since the epoch.\<close>

definition wrong_dates :: "val list" where
  "wrong_dates = [Stamp (- 2208988800), Stamp 4102444800, NaT, Stamp 0]"

definition timestamp_step :: "(string \<times> col_info) list \<Rightarrow> frame \<Rightarrow> rng \<Rightarrow> error + (frame \<times> rng)" where
  "timestamp_step column_types df g =
     rbind (py_randint 0 (int (length (rows df)) - 1) g) (\<lambda>row_idx g1.
     rbind (py_choice (datetime_cols column_types) g1) (\<lambda>col g2.
     rbind (py_choice wrong_dates g2) (\<lambda>w g3.
       Inr (at_set df (nat row_idx) col w, g3))))"

definition add_wrong_timestamps :: "(string \<times> col_info) list \<Rightarrow> frame \<Rightarrow> rat \<Rightarrow> rng \<Rightarrow> error + (frame \<times> rng)" where
  "add_wrong_timestamps column_types df rate g =
     (let num_wrong = py_count (length (rows df)) rate in
      if datetime_cols column_types = [] then Inr (df, g)
      else repeat_m (nat num_wrong) (timestamp_step column_types) df g)"

subsection \<open>Pass 5: text corruption\<close>

definition text_step :: "strlib \<Rightarrow> (string \<times> col_info) list \<Rightarrow> frame \<Rightarrow> rng \<Rightarrow> error + (frame \<times> rng)" where
  "text_step L column_types df g =
     rbind (py_randint 0 (int (length (rows df)) - 1) g) (\<lambda>row_idx g1.
     rbind (py_choice (text_cols column_types) g1) (\<lambda>col g2.
       case at_get df (nat row_idx) col of
         Inl e \<Rightarrow> Inl e
       | Inr (Str original) \<Rightarrow>
           if length original > 0 then
             rbind (py_choices (ascii_letters @ digits) (length original) g2) (\<lambda>junk g3.
             rbind (py_choice
                      [str_upper L original,
                       str_lower L original,
                       original @ ''???'',
                       replace_char (hd original) ''X'' original,
                       rev original,
                       original @ original,
                       '''',
                       junk] g3) (\<lambda>c g4.
               Inr (at_set df (nat row_idx) col (Str c), g4)))
           else Inr (df, g2)
       | Inr _ \<Rightarrow> Inr (df, g2)))"

definition add_text_corruption :: "strlib \<Rightarrow> (string \<times> col_info) list \<Rightarrow> frame \<Rightarrow> rat \<Rightarrow> rng \<Rightarrow> error + (frame \<times> rng)" where
  "add_text_corruption L column_types df rate g =
     (let num_corrupt = py_count (length (rows df)) rate in
      if text_cols column_types = [] then Inr (df, g)
      else repeat_m (nat num_corrupt) (text_step L column_types) df g)"

section \<open>The pipeline\<close>

record rates =
  duplicate_rate :: rat
  null_rate :: rat
  wrong_range_rate :: rat
  wrong_timestamp_rate :: rat
  text_corruption_rate :: rat

definition introduce_messiness :: "strlib \<Rightarrow> (string \<times> col_info) list \<Rightarrow> frame \<Rightarrow> rates \<Rightarrow> rng \<Rightarrow> error + (frame \<times> rng)" where
  "introduce_messiness L column_types df rs g =
     (let messy_df = df in
      rbind (add_smart_duplicates L column_types messy_df (duplicate_rate rs) g) (\<lambda>d1 g1.
      rbind (add_strategic_nulls column_types d1 (null_rate rs) g1) (\<lambda>d2 g2.
      rbind (add_wrong_ranges column_types d2 (wrong_range_rate rs) g2) (\<lambda>d3 g3.
      rbind (add_wrong_timestamps column_types d3 (wrong_timestamp_rate rs) g3) (\<lambda>d4 g4.
             add_text_corruption L column_types d4 (text_corruption_rate rs) g4)))))"

text \<open>
  \<open>df.sample(frac=1).reset_index(drop=True)\<close>: the rows in a random order. The order
  is drawn row by row: each draw takes one of the rows that are left.
\<close>

fun shuffle :: "nat \<Rightarrow> 'a list \<Rightarrow> rng \<Rightarrow> 'a list \<times> rng" where
  "shuffle 0 xs g = ([], g)"
| "shuffle (Suc n) xs g =
     (if xs = [] then ([], g)
      else let i = g 0 mod length xs in
        case shuffle n (take i xs @ drop (Suc i) xs) (rng_next g) of
          (ys, g') \<Rightarrow> (xs ! i # ys, g'))"

definition sample_frac1 :: "frame \<Rightarrow> rng \<Rightarrow> frame \<times> rng" where
  "sample_frac1 df g = (case shuffle (length (rows df)) (rows df) g of (rs, g') \<Rightarrow> (df\<lparr>rows := rs\<rparr>, g'))"

text \<open>
  \<open>generate_messy_data\<close> is a method of a generator whose constructor has computed the
  profile map \<open>column_types\<close> of the sample.
\<close>

definition generate_messy_data :: "strlib \<Rightarrow> (string \<times> col_info) list \<Rightarrow> int \<Rightarrow> rates \<Rightarrow> rng \<Rightarrow> error + (frame \<times> rng)" where
  "generate_messy_data L column_types target_rows rs g =
     rbind (expand_data column_types target_rows g) (\<lambda>expanded_data g1.
     rbind (introduce_messiness L column_types expanded_data rs g1) (\<lambda>messy_data g2.
       Inr (sample_frac1 messy_data g2)))"

text \<open>The constructor and the call, as \<open>main\<close> runs them.\<close>

definition run_generator :: "strlib \<Rightarrow> sample \<Rightarrow> int \<Rightarrow> rates \<Rightarrow> rng \<Rightarrow> error + (frame \<times> rng)" where
  "run_generator L sample_df target_rows rs g =
     (case analyze_columns sample_df of
        Inl e \<Rightarrow> Inl e
      | Inr column_types \<Rightarrow> generate_messy_data L column_types target_rows rs g)"

text \<open>\<open>len(messy_data)\<close> of the table that a run returns, which the run prints last.\<close>

definition row_count :: "error + (frame \<times> rng) \<Rightarrow> error + nat" where
  "row_count r = (case r of Inl e \<Rightarrow> Inl e | Inr (df, g) \<Rightarrow> Inr (length (rows df)))"

text \<open>What \<open>analyze_data_quality\<close> counts: rows equal to an earlier row, and null cells.\<close>

fun duplicated_count :: "'a list \<Rightarrow> nat" where
  "duplicated_count [] = 0"
| "duplicated_count (x # xs) = length (filter (\<lambda>y. y = x) xs) + duplicated_count (filter (\<lambda>y. y \<noteq> x) xs)"

definition null_count :: "frame \<Rightarrow> nat" where
  "null_count df = length (filter isnull (concat (rows df)))"

section \<open>Notions of the specification\<close>

definition valid_rate :: "rat \<Rightarrow> bool" where
  "valid_rate r \<longleftrightarrow> 0 \<le> r \<and> r \<le> 1"

definition valid_rates :: "rates \<Rightarrow> bool" where
  "valid_rates rs \<longleftrightarrow>
     valid_rate (duplicate_rate rs) \<and> valid_rate (null_rate rs) \<and> valid_rate (wrong_range_rate rs)
     \<and> valid_rate (wrong_timestamp_rate rs) \<and> valid_rate (text_corruption_rate rs)"

text \<open>
  A profile from which a value can always be drawn: its list of distinct values is
  empty only if its samples are, and it is not the profile of a column of truth values.
\<close>

fun info_ok :: "col_info \<Rightarrow> bool" where
  "info_ok (Categorical xs us) = (xs = [] \<or> us \<noteq> [])"
| "info_ok (NumericB lo hi xs) = False"
| "info_ok _ = True"

definition profile_ok :: "(string \<times> col_info) list \<Rightarrow> bool" where
  "profile_ok column_types \<longleftrightarrow> distinct (map fst column_types) \<and> list_all (\<lambda>(col, info). info_ok info) column_types"

text \<open>
  A working table fits a profile map when it is empty or has the profile's columns; it
  is rectangular when every row has a cell for every column.
\<close>

definition fits :: "(string \<times> col_info) list \<Rightarrow> frame \<Rightarrow> bool" where
  "fits column_types df \<longleftrightarrow> rows df = [] \<or> columns df = map fst column_types"

definition rectangular :: "frame \<Rightarrow> bool" where
  "rectangular df \<longleftrightarrow> list_all (\<lambda>r. length r = length (columns df)) (rows df)"

text \<open>
  The value of the next \<open>random.random()\<close>, and the element that the next
  \<open>random.choice\<close> takes from a list.
\<close>

definition unit_draw :: "rng \<Rightarrow> rat" where
  "unit_draw g = fst (py_random g)"

definition pick :: "'a list \<Rightarrow> rng \<Rightarrow> 'a" where
  "pick xs g = xs ! (g 0 mod length xs)"

text \<open>
  The near-duplicates of a row in one column: the row with the string of that column
  rewritten by one of the four transforms (trailing space, upper case, lower case,
  spaces removed). There is none when the cell does not hold a string.
\<close>

definition near_copies :: "strlib \<Rightarrow> string list \<Rightarrow> val list \<Rightarrow> string \<Rightarrow> val list list" where
  "near_copies L cs row col =
     (case row_get cs row col of
        Inr (Str s) \<Rightarrow>
          map (\<lambda>m. row_set cs row col (Str m))
            [s @ '' '', str_upper L s, str_lower L s, replace_char CHR '' '' '''' s]
      | _ \<Rightarrow> [])"

text \<open>A sample table without a column of truth values.\<close>

fun is_bool_col :: "column \<Rightarrow> bool" where
  "is_bool_col (BoolCol xs) = True"
| "is_bool_col _ = False"

definition no_bool_column :: "sample \<Rightarrow> bool" where
  "no_bool_column sample_df \<longleftrightarrow> list_all (\<lambda>(col, c). \<not> is_bool_col c) sample_df"

section \<open>Facts about the primitives\<close>

lemma pow2_pos: "0 < pow2 e"
  by (simp add: pow2_def)

lemma rne_nonneg: "0 \<le> q \<Longrightarrow> 0 \<le> rne q"
  by (auto simp: rne_def Let_def)

lemma rd_pos_nonneg: "0 \<le> x \<Longrightarrow> 0 \<le> rd_pos x"
proof -
  assume x: "0 \<le> x"
  let ?ulp = "pow2 (max (bexp x) (- 1022) - 52)"
  have "0 \<le> x / ?ulp" using x pow2_pos [of "max (bexp x) (- 1022) - 52"] by simp
  then have "0 \<le> rne (x / ?ulp)" by (rule rne_nonneg)
  then have "0 \<le> rat_of_int (rne (x / ?ulp)) * ?ulp"
    using pow2_pos [of "max (bexp x) (- 1022) - 52"] by simp
  then show ?thesis by (simp add: rd_pos_def Let_def)
qed

lemma rd_nonneg: "0 \<le> x \<Longrightarrow> 0 \<le> rd x"
  using rd_pos_nonneg [of x] by (simp add: rd_def)

lemma rd_zero [simp]: "rd 0 = 0"
  by (simp add: rd_def)

lemma rbind_Inl [simp]: "rbind (Inl e) f = Inl e"
  by (simp add: rbind_def)

lemma rbind_Inr [simp]: "rbind (Inr (x, g)) f = f x g"
  by (simp add: rbind_def)

lemma rbind_eq_Inr:
  "rbind m f = Inr r \<longleftrightarrow> (\<exists>x g. m = Inr (x, g) \<and> f x g = Inr r)"
  by (cases m) (auto simp: rbind_def)

lemma py_choice_mem: "xs \<noteq> [] \<Longrightarrow> \<exists>x\<in>set xs. py_choice xs g = Inr (x, rng_next g)"
  by (simp add: py_choice_def)

lemma py_choice_ex: "xs \<noteq> [] \<Longrightarrow> \<exists>v g'. py_choice xs g = Inr (v, g')"
  by (simp add: py_choice_def)

lemma py_randint_row:
  "0 < n \<Longrightarrow> \<exists>r<n. py_randint 0 (int n - 1) g = Inr (int r, rng_next g)"
  by (auto simp: py_randint_def intro!: exI [of _ "g 0 mod n"])

lemma py_random_unit: "py_random g = (u, g') \<Longrightarrow> 0 \<le> u \<and> u < 1 \<and> g' = rng_next g"
  by (auto simp: py_random_def)

lemma py_choices_ok:
  "pop \<noteq> [] \<Longrightarrow> \<exists>xs g'. py_choices pop k g = Inr (xs, g') \<and> length xs = k \<and> set xs \<subseteq> set pop"
proof (induction k arbitrary: g)
  case 0
  then show ?case by simp
next
  case (Suc k)
  from py_choice_mem [OF Suc.prems] obtain x where x: "x \<in> set pop" "py_choice pop g = Inr (x, rng_next g)"
    by blast
  from Suc.IH [OF Suc.prems] obtain xs g' where
    "py_choices pop k (rng_next g) = Inr (xs, g')" "length xs = k" "set xs \<subseteq> set pop"
    by blast
  with x show ?case by simp
qed

lemma py_int_floor: "0 \<le> x \<Longrightarrow> py_int x = \<lfloor>x\<rfloor>"
  by (simp add: py_int_def)

lemma py_count_nonneg:
  assumes "valid_rate r"
  shows "0 \<le> py_count n r"
proof -
  from assms have "0 \<le> r" by (simp add: valid_rate_def)
  moreover have "0 \<le> rd (rat_of_nat n)" by (rule rd_nonneg) simp
  ultimately have "0 \<le> rd (rat_of_nat n) * r" by simp
  then have "0 \<le> rd (rd (rat_of_nat n) * r)" by (rule rd_nonneg)
  then show ?thesis by (simp add: py_count_def py_int_floor)
qed

lemma py_count_zero [simp]: "py_count 0 r = 0"
  by (simp add: py_count_def py_int_def)

lemma repeat_m_inv:
  assumes "P s"
    and "\<And>s g. P s \<Longrightarrow> \<exists>s' g'. f s g = Inr (s', g') \<and> P s'"
  shows "\<exists>s' g'. repeat_m n f s g = Inr (s', g') \<and> P s'"
  using assms(1)
proof (induction n arbitrary: s g)
  case 0
  then show ?case by simp
next
  case (Suc n)
  from assms(2) [OF Suc.prems] obtain s1 g1 where "f s g = Inr (s1, g1)" "P s1" by blast
  with Suc.IH [of s1 g1] show ?case by simp
qed

lemma at_set_length [simp]: "length (rows (at_set df r c v)) = length (rows df)"
  by (simp add: at_set_def split: option.splits)

lemma col_index_Some: "c \<in> set cs \<Longrightarrow> \<exists>j<length cs. col_index cs c = Some j \<and> cs ! j = c"
  by (induction cs) auto

lemma col_index_None: "c \<notin> set cs \<Longrightarrow> col_index cs c = None"
  by (induction cs) auto

lemma at_set_columns: "c \<in> set (columns df) \<Longrightarrow> columns (at_set df r c v) = columns df"
  using col_index_Some [of c "columns df"] by (auto simp: at_set_def)

lemma py_random_draw: "py_random g = (unit_draw g, rng_next g)"
  by (simp add: unit_draw_def py_random_def)

lemma py_choice_pick: "xs \<noteq> [] \<Longrightarrow> py_choice xs g = Inr (pick xs g, rng_next g)"
  by (simp add: py_choice_def pick_def)

lemma pick_mem: "xs \<noteq> [] \<Longrightarrow> pick xs g \<in> set xs"
  by (simp add: pick_def)

lemma pick_map: "xs \<noteq> [] \<Longrightarrow> pick (map f xs) g = f (pick xs g)"
  by (simp add: pick_def)

lemma unit_draw_range: "0 \<le> unit_draw g \<and> unit_draw g < 1"
  using py_random_unit [OF py_random_draw] by simp

section \<open>Expansion\<close>

lemma generate_text_variation_ok:
  "\<exists>v g'. generate_text_variation t g = Inr (v, g') \<and> (\<not> isnull t \<longrightarrow> \<not> isnull v)"
proof (cases t)
  case (Str s)
  show ?thesis
  proof (cases "s = []")
    case True
    with Str show ?thesis by (simp add: generate_text_variation_def)
  next
    case False
    obtain n where n: "py_randint 1 999 g = Inr (n, rng_next g)"
      by (simp add: py_randint_def)
    obtain suffix where suffix:
      "py_choice ['' Jr'', '' Sr'', '' II'', '' Inc'', '' LLC''] (rng_next g) = Inr (suffix, rng_next (rng_next g))"
      using py_choice_mem [of "['' Jr'', '' Sr'', '' II'', '' Inc'', '' LLC'']" "rng_next g"] by auto
    have "ascii_letters \<noteq> []" by (simp add: ascii_letters_def)
    from py_choices_ok [OF this] obtain letters g3 where
      letters: "py_choices ascii_letters (length s) (rng_next (rng_next g)) = Inr (letters, g3)"
      by blast
    obtain v where v:
      "py_choice [s @ py_str n, replace_char CHR '' '' ''_'' s, s @ suffix, letters] g3 = Inr (v, rng_next g3)"
      using py_choice_mem [of "[s @ py_str n, replace_char CHR '' '' ''_'' s, s @ suffix, letters]" g3] by auto
    from Str False n suffix letters v show ?thesis
      by (simp add: generate_text_variation_def)
  qed
qed (simp_all add: generate_text_variation_def)

lemma generate_similar_value_ok:
  assumes "info_ok info"
  shows "\<exists>v g'. generate_similar_value info g = Inr (v, g')"
proof (cases "samples info = []")
  case True
  then show ?thesis by (simp add: generate_similar_value_def)
next
  case False
  obtain u g1 where u: "py_random g = (u, g1)" by (cases "py_random g")
  from py_choice_ex [OF False, of g1] obtain s gs where s: "py_choice (samples info) g1 = Inr (s, gs)"
    by blast
  show ?thesis
  proof (cases info)
    case (NumericI lo hi xs)
    obtain x g2 where x: "py_uniform_int64 lo hi g1 = (x, g2)" by (cases "py_uniform_int64 lo hi g1")
    from False NumericI u x s show ?thesis
      by (simp add: generate_similar_value_def)
  next
    case (NumericF lo hi xs)
    obtain x g2 where x: "py_uniform lo hi g1 = (x, g2)" by (cases "py_uniform lo hi g1")
    from False NumericF u x s show ?thesis
      by (simp add: generate_similar_value_def)
  next
    case (NumericB lo hi xs)
    with assms show ?thesis by simp
  next
    case (Datetime lo hi xs)
    obtain x g2 where x: "py_uniform (fl lo) (fl hi) g1 = (x, g2)"
      by (cases "py_uniform (fl lo) (fl hi) g1")
    from False Datetime u x s show ?thesis
      by (cases x) (simp_all add: generate_similar_value_def)
  next
    case (Categorical xs us)
    with False assms py_choice_ex [of us g] show ?thesis
      by (auto simp: generate_similar_value_def)
  next
    case (Text xs us)
    with False py_choice_mem [of xs g] obtain t where t: "py_choice xs g = Inr (t, rng_next g)"
      by auto
    obtain u2 g2 where u2: "py_random (rng_next g) = (u2, g2)" by (cases "py_random (rng_next g)")
    from generate_text_variation_ok [of t g2] Text False t u2 show ?thesis
      by (auto simp: generate_similar_value_def)
  next
    case (Mixed xs)
    with False py_choice_ex [of xs g] show ?thesis
      by (auto simp: generate_similar_value_def)
  qed
qed

lemma info_ok_analyze:
  assumes "analyze_column c = Inr info" and "\<not> is_bool_col c"
  shows "info_ok info"
  using assms by (cases c) (auto simp: Let_def unique_def split: if_splits)

lemma analyze_columns_Inr:
  assumes "analyze_columns sample_df = Inr ct"
  shows "map fst ct = map fst sample_df
       \<and> list_all2 (\<lambda>(col, c) (col', info). col' = col \<and> analyze_column c = Inr info) sample_df ct"
  using assms
proof (induction sample_df arbitrary: ct)
  case Nil
  then show ?case by simp
next
  case (Cons a rest)
  obtain col c where a: "a = (col, c)" by (cases a)
  from Cons.prems a obtain info ct' where
    i: "analyze_column c = Inr info" and r: "analyze_columns rest = Inr ct'" and ct: "ct = (col, info) # ct'"
    by (auto split: sum.splits)
  from Cons.IH [OF r] a i ct show ?case by simp
qed

lemma analyze_columns_labels: "analyze_columns sample_df = Inr ct \<Longrightarrow> map fst ct = map fst sample_df"
  using analyze_columns_Inr by blast

lemma analyze_columns_ok:
  assumes "analyze_columns sample_df = Inr ct" and "no_bool_column sample_df"
  shows "list_all (\<lambda>(col, info). info_ok info) ct"
  using assms
proof (induction sample_df arbitrary: ct)
  case Nil
  then show ?case by simp
next
  case (Cons a rest)
  obtain col c where a: "a = (col, c)" by (cases a)
  from Cons.prems(1) a obtain info ct' where
    i: "analyze_column c = Inr info" and r: "analyze_columns rest = Inr ct'" and ct: "ct = (col, info) # ct'"
    by (auto split: sum.splits)
  from Cons.prems(2) a have nb: "\<not> is_bool_col c" "no_bool_column rest"
    by (simp_all add: no_bool_column_def)
  from Cons.IH [OF r nb(2)] info_ok_analyze [OF i nb(1)] ct show ?case by simp
qed

lemma profile_ok_analyze:
  assumes "analyze_columns sample_df = Inr ct" and "no_bool_column sample_df"
    and "distinct (map fst sample_df)"
  shows "profile_ok ct"
  using analyze_columns_ok [OF assms(1,2)] analyze_columns_labels [OF assms(1)] assms(3)
  by (simp add: profile_ok_def)

lemma new_record_ok:
  assumes "list_all (\<lambda>(col, info). info_ok info) column_types"
  shows "\<exists>r g'. new_record column_types g = Inr (r, g') \<and> map fst r = map fst column_types"
  using assms
proof (induction column_types arbitrary: g)
  case Nil
  then show ?case by simp
next
  case (Cons a column_types)
  obtain col info where a: "a = (col, info)" by (cases a)
  with Cons.prems have "info_ok info" by simp
  from generate_similar_value_ok [OF this] obtain v g1 where
    v: "generate_similar_value info g = Inr (v, g1)" by blast
  from Cons.IH [of g1] Cons.prems obtain r g2 where
    "new_record column_types g1 = Inr (r, g2)" "map fst r = map fst column_types" by auto
  with a v show ?case by simp
qed

lemma expanded_records_ok:
  assumes "list_all (\<lambda>(col, info). info_ok info) column_types"
  shows "\<exists>rs g'. expanded_records column_types n g = Inr (rs, g') \<and> length rs = n
           \<and> (\<forall>r \<in> set rs. map fst r = map fst column_types)"
proof (induction n arbitrary: g)
  case 0
  then show ?case by simp
next
  case (Suc n)
  from new_record_ok [OF assms] obtain r g1 where
    r: "new_record column_types g = Inr (r, g1)" "map fst r = map fst column_types" by blast
  from Suc.IH [of g1] obtain rs g2 where
    "expanded_records column_types n g1 = Inr (rs, g2)" "length rs = n"
    "\<forall>r \<in> set rs. map fst r = map fst column_types" by blast
  with r show ?case by simp
qed

lemma expand_data_shape:
  assumes "list_all (\<lambda>(col, info). info_ok info) column_types"
  shows "\<exists>df g'. expand_data column_types target_rows g = Inr (df, g')
           \<and> length (rows df) = nat target_rows
           \<and> columns df = (if target_rows \<le> 0 then [] else map fst column_types)"
proof -
  from expanded_records_ok [OF assms] obtain rs g' where
    rs: "expanded_records column_types (nat target_rows) g = Inr (rs, g')" "length rs = nat target_rows"
    "\<forall>r \<in> set rs. map fst r = map fst column_types" by blast
  show ?thesis
  proof (cases rs)
    case Nil
    with rs show ?thesis by (simp add: expand_data_def DataFrame_def)
  next
    case (Cons r rest)
    with rs have "0 < target_rows" by (cases "target_rows \<le> 0") auto
    with rs Cons show ?thesis by (simp add: expand_data_def DataFrame_def)
  qed
qed

section \<open>The duplication pass\<close>

lemma text_cols_subset: "set (text_cols ct) \<subseteq> set (map fst ct)"
  by (auto simp: text_cols_def)

lemma numeric_cols_subset: "set (numeric_cols ct) \<subseteq> set (map fst ct)"
  by (auto simp: numeric_cols_def)

lemma datetime_cols_subset: "set (datetime_cols ct) \<subseteq> set (map fst ct)"
  by (auto simp: datetime_cols_def)

lemma set_null_prone_cols: "set (null_prone_cols ct) = set (map fst ct)"
  by (induction ct) (auto simp: null_prone_cols_def)

lemma null_prone_cols_empty: "null_prone_cols ct = [] \<longleftrightarrow> ct = []"
  by (cases ct) (auto simp: null_prone_cols_def split: if_splits)

lemma row_get_ok: "c \<in> set cs \<Longrightarrow> \<exists>v. row_get cs row c = Inr v"
  using col_index_Some [of c cs] by (auto simp: row_get_def)

lemma row_set_length [simp]: "length (row_set cs row c v) = length row"
  by (simp add: row_set_def split: option.splits)

lemma make_duplicate_cases:
  assumes "idx < length (rows df)" and "set (text_cols ct) \<subseteq> set (columns df)"
  shows "\<exists>v. (text_cols ct \<noteq> [] \<longrightarrow>
                row_get (columns df) (rows df ! idx) (pick (text_cols ct) (rng_next g)) = Inr v)
           \<and> make_duplicate L ct df idx g =
               (if unit_draw g < lit_0_3 \<and> text_cols ct \<noteq> [] then
                  (if is_str v then
                     Inr (pick (near_copies L (columns df) (rows df ! idx) (pick (text_cols ct) (rng_next g)))
                            (rng_next (rng_next g)),
                          rng_next (rng_next (rng_next g)))
                   else Inr (rows df ! idx, rng_next (rng_next g)))
                else Inr (rows df ! idx, rng_next g))"
proof (cases "text_cols ct = []")
  case True
  with assms(1) show ?thesis by (simp add: make_duplicate_def Let_def py_random_draw)
next
  case False
  let ?col = "pick (text_cols ct) (rng_next g)"
  let ?row = "rows df ! idx"
  from False have "?col \<in> set (text_cols ct)" by (rule pick_mem)
  with assms(2) have "?col \<in> set (columns df)" by blast
  from row_get_ok [OF this] obtain v where v: "row_get (columns df) ?row ?col = Inr v" by blast
  have "make_duplicate L ct df idx g =
               (if unit_draw g < lit_0_3 then
                  (if is_str v then
                     Inr (pick (near_copies L (columns df) ?row ?col) (rng_next (rng_next g)),
                          rng_next (rng_next (rng_next g)))
                   else Inr (?row, rng_next (rng_next g)))
                else Inr (?row, rng_next g))"
  proof (cases v)
    case (Str s)
    let ?mods = "[s @ '' '', str_upper L s, str_lower L s, replace_char CHR '' '' '''' s]"
    have ne: "?mods \<noteq> []" by simp
    have c: "py_choice ?mods (rng_next (rng_next g)) = Inr (pick ?mods (rng_next (rng_next g)), rng_next (rng_next (rng_next g)))"
      using ne by (rule py_choice_pick)
    have nc: "near_copies L (columns df) ?row ?col = map (\<lambda>m. row_set (columns df) ?row ?col (Str m)) ?mods"
      by (simp add: near_copies_def v Str)
    have "pick (near_copies L (columns df) ?row ?col) (rng_next (rng_next g))
        = row_set (columns df) ?row ?col (Str (pick ?mods (rng_next (rng_next g))))"
      unfolding nc using ne by (rule pick_map)
    with assms(1) False v Str c show ?thesis
      by (simp add: make_duplicate_def Let_def py_random_draw py_choice_pick)
  qed (use assms(1) False v in \<open>simp_all add: make_duplicate_def Let_def py_random_draw py_choice_pick\<close>)
  with False v show ?thesis by auto
qed

lemma make_duplicate_ok:
  assumes "idx < length (rows df)" and "set (text_cols ct) \<subseteq> set (columns df)"
  shows "\<exists>d g'. make_duplicate L ct df idx g = Inr (d, g')"
  using make_duplicate_cases [OF assms, of g L] by (auto split: if_splits)

lemma make_duplicate_result:
  assumes "idx < length (rows df)" and "set (text_cols ct) \<subseteq> set (columns df)"
    and "make_duplicate L ct df idx g = Inr (d, g')"
  shows "d = rows df ! idx \<or> (\<exists>col \<in> set (text_cols ct). d \<in> set (near_copies L (columns df) (rows df ! idx) col))"
proof -
  from make_duplicate_cases [OF assms(1,2), of g L] obtain v where
    v: "text_cols ct \<noteq> [] \<longrightarrow> row_get (columns df) (rows df ! idx) (pick (text_cols ct) (rng_next g)) = Inr v"
    and m: "make_duplicate L ct df idx g =
               (if unit_draw g < lit_0_3 \<and> text_cols ct \<noteq> [] then
                  (if is_str v then
                     Inr (pick (near_copies L (columns df) (rows df ! idx) (pick (text_cols ct) (rng_next g)))
                            (rng_next (rng_next g)),
                          rng_next (rng_next (rng_next g)))
                   else Inr (rows df ! idx, rng_next (rng_next g)))
                else Inr (rows df ! idx, rng_next g))" by blast
  show ?thesis
  proof (cases "unit_draw g < lit_0_3 \<and> text_cols ct \<noteq> [] \<and> is_str v")
    case False
    with m assms(3) show ?thesis by (auto split: if_splits)
  next
    case True
    let ?col = "pick (text_cols ct) (rng_next g)"
    from True have cm: "?col \<in> set (text_cols ct)" by (simp add: pick_mem)
    from True v obtain s where "row_get (columns df) (rows df ! idx) ?col = Inr (Str s)"
      by (cases v) auto
    then have "near_copies L (columns df) (rows df ! idx) ?col \<noteq> []" by (simp add: near_copies_def)
    then have "pick (near_copies L (columns df) (rows df ! idx) ?col) (rng_next (rng_next g))
        \<in> set (near_copies L (columns df) (rows df ! idx) ?col)" by (rule pick_mem)
    moreover from True m assms(3) have
      "d = pick (near_copies L (columns df) (rows df ! idx) ?col) (rng_next (rng_next g))" by simp
    ultimately show ?thesis using cm by blast
  qed
qed

lemma duplicates_ok:
  assumes "\<forall>idx \<in> set idxs. idx < length (rows df)" and "set (text_cols ct) \<subseteq> set (columns df)"
  shows "\<exists>ds g'. duplicates L ct df idxs g = Inr (ds, g') \<and> length ds = length idxs"
  using assms(1)
proof (induction idxs arbitrary: g)
  case Nil
  then show ?case by simp
next
  case (Cons idx idxs)
  then have "idx < length (rows df)" by simp
  from make_duplicate_ok [OF this assms(2)] obtain d g1 where
    d: "make_duplicate L ct df idx g = Inr (d, g1)" by blast
  from Cons obtain ds g2 where "duplicates L ct df idxs g1 = Inr (ds, g2)" "length ds = length idxs"
    by fastforce
  with d show ?case by simp
qed

lemma duplicates_result:
  assumes "\<forall>idx \<in> set idxs. idx < length (rows df)" and "set (text_cols ct) \<subseteq> set (columns df)"
    and "duplicates L ct df idxs g = Inr (ds, g')"
  shows "\<forall>d \<in> set ds. \<exists>idx < length (rows df). d = rows df ! idx
            \<or> (\<exists>col \<in> set (text_cols ct). d \<in> set (near_copies L (columns df) (rows df ! idx) col))"
  using assms(1,3)
proof (induction idxs arbitrary: g ds)
  case Nil
  then show ?case by simp
next
  case (Cons idx idxs)
  from Cons.prems(2) obtain d g1 ds' where
    d: "make_duplicate L ct df idx g = Inr (d, g1)" and
    ds': "duplicates L ct df idxs g1 = Inr (ds', g')" and ds: "ds = d # ds'"
    by (auto simp: rbind_eq_Inr)
  from Cons.prems(1) have i: "idx < length (rows df)" by simp
  from make_duplicate_result [OF i assms(2) d] i
  have "\<exists>idx < length (rows df). d = rows df ! idx
            \<or> (\<exists>col \<in> set (text_cols ct). d \<in> set (near_copies L (columns df) (rows df ! idx) col))"
    by blast
  moreover from Cons.IH [OF _ ds'] Cons.prems(1)
  have "\<forall>d \<in> set ds'. \<exists>idx < length (rows df). d = rows df ! idx
            \<or> (\<exists>col \<in> set (text_cols ct). d \<in> set (near_copies L (columns df) (rows df ! idx) col))"
    by simp
  ultimately show ?case using ds by simp
qed

lemma np_choice_ok:
  assumes "0 \<le> k" and "n = 0 \<longrightarrow> k = 0"
  shows "\<exists>idxs g'. np_choice n k g = Inr (idxs, g') \<and> length idxs = nat k \<and> (\<forall>i \<in> set idxs. i < n)"
proof (cases "n = 0")
  case True
  with assms show ?thesis by (simp add: np_choice_def)
next
  case False
  then have "[0..<n] \<noteq> []" by simp
  from py_choices_ok [OF this, of "nat k" g] obtain xs g' where
    xs: "py_choices [0..<n] (nat k) g = Inr (xs, g')" "length xs = nat k" "set xs \<subseteq> set [0..<n]"
    by blast
  from xs(3) have "\<forall>i \<in> set xs. i < n" by auto
  with xs assms False show ?thesis by (simp add: np_choice_def)
qed

lemma fits_text_cols: "fits ct df \<Longrightarrow> rows df \<noteq> [] \<Longrightarrow> set (text_cols ct) \<subseteq> set (columns df)"
  using text_cols_subset [of ct] by (auto simp: fits_def)

lemma add_smart_duplicates_result:
  assumes "valid_rate rate" and "fits ct df"
  shows "\<exists>ds g'. add_smart_duplicates L ct df rate g = Inr (df\<lparr>rows := rows df @ ds\<rparr>, g')
           \<and> int (length ds) = py_count (length (rows df)) rate
           \<and> (\<forall>d \<in> set ds. \<exists>idx < length (rows df). d = rows df ! idx
                \<or> (\<exists>col \<in> set (text_cols ct). d \<in> set (near_copies L (columns df) (rows df ! idx) col)))"
proof -
  let ?n = "length (rows df)"
  let ?k = "py_count ?n rate"
  have k0: "0 \<le> ?k" using py_count_nonneg [OF assms(1)] .
  moreover have "?n = 0 \<longrightarrow> ?k = 0" by simp
  ultimately obtain idxs g1 where idxs: "np_choice ?n ?k g = Inr (idxs, g1)" "length idxs = nat ?k"
    "\<forall>i \<in> set idxs. i < ?n"
    using np_choice_ok by blast
  have "\<exists>ds g'. duplicates L ct df idxs g1 = Inr (ds, g') \<and> length ds = length idxs
      \<and> (\<forall>d \<in> set ds. \<exists>idx < length (rows df). d = rows df ! idx
            \<or> (\<exists>col \<in> set (text_cols ct). d \<in> set (near_copies L (columns df) (rows df ! idx) col)))"
  proof (cases "rows df = []")
    case True
    with idxs(3) have "idxs = []" by (cases idxs) auto
    then show ?thesis by simp
  next
    case False
    from duplicates_ok [OF idxs(3) fits_text_cols [OF assms(2) False], of L g1]
    obtain ds g' where ds: "duplicates L ct df idxs g1 = Inr (ds, g')" "length ds = length idxs"
      by blast
    from duplicates_result [OF idxs(3) fits_text_cols [OF assms(2) False] ds(1)] ds
    show ?thesis by blast
  qed
  then obtain ds g2 where ds: "duplicates L ct df idxs g1 = Inr (ds, g2)" "length ds = length idxs"
    "\<forall>d \<in> set ds. \<exists>idx < length (rows df). d = rows df ! idx
            \<or> (\<exists>col \<in> set (text_cols ct). d \<in> set (near_copies L (columns df) (rows df ! idx) col))"
    by blast
  have "add_smart_duplicates L ct df rate g = Inr (df\<lparr>rows := rows df @ ds\<rparr>, g2)"
    using idxs(1) ds(1) by (simp add: add_smart_duplicates_def Let_def)
  moreover have "int (length ds) = ?k" using ds(2) idxs(2) k0 by simp
  ultimately show ?thesis using ds(3) by blast
qed

lemma add_smart_duplicates_shape:
  assumes "valid_rate rate" and "fits ct df"
  shows "\<exists>df' g'. add_smart_duplicates L ct df rate g = Inr (df', g')
           \<and> int (length (rows df')) = int (length (rows df)) + py_count (length (rows df)) rate
           \<and> columns df' = columns df"
proof -
  from add_smart_duplicates_result [OF assms, of L g] obtain ds g' where
    "add_smart_duplicates L ct df rate g = Inr (df\<lparr>rows := rows df @ ds\<rparr>, g')"
    "int (length ds) = py_count (length (rows df)) rate" by blast
  then show ?thesis by (intro exI [of _ "df\<lparr>rows := rows df @ ds\<rparr>"] exI [of _ g']) simp
qed

section \<open>The passes that overwrite cells\<close>

lemma wrong_values_ok:
  assumes "is_numeric info" and "info_ok info"
  shows "\<exists>ws. wrong_values info = Inr ws \<and> length ws = 5"
  using assms by (cases info) simp_all

lemma numeric_lookup:
  assumes "profile_ok ct" and "col \<in> set (numeric_cols ct)"
  shows "\<exists>info. map_of ct col = Some info \<and> is_numeric info \<and> info_ok info"
proof -
  from assms(2) obtain info where info: "(col, info) \<in> set ct" "is_numeric info"
    by (auto simp: numeric_cols_def)
  from assms(1) have d: "distinct (map fst ct)" and a: "list_all (\<lambda>(col, info). info_ok info) ct"
    by (simp_all add: profile_ok_def)
  from d info(1) have "map_of ct col = Some info" by simp
  moreover from a info(1) have "info_ok info" by (auto simp: list_all_iff)
  ultimately show ?thesis using info(2) by blast
qed

lemma null_step_shape:
  assumes "rows df \<noteq> []" and "ct \<noteq> []" and "columns df = map fst ct"
  shows "\<exists>df' g'. null_step ct df g = Inr (df', g')
           \<and> length (rows df') = length (rows df) \<and> columns df' = columns df"
proof -
  from assms(1) obtain r where r: "py_randint 0 (int (length (rows df)) - 1) g = Inr (int r, rng_next g)"
    using py_randint_row [of "length (rows df)" g] by auto
  from assms(2) have "null_prone_cols ct \<noteq> []" by (simp add: null_prone_cols_empty)
  from py_choice_mem [OF this] obtain c where
    c: "c \<in> set (null_prone_cols ct)" "py_choice (null_prone_cols ct) (rng_next g) = Inr (c, rng_next (rng_next g))"
    by blast
  from c(1) assms(3) have "c \<in> set (columns df)" by (simp add: set_null_prone_cols)
  with r c(2) show ?thesis by (simp add: null_step_def at_set_columns)
qed

lemma range_step_shape:
  assumes "rows df \<noteq> []" and "profile_ok ct" and "columns df = map fst ct"
  shows "\<exists>df' g'. range_step ct df g = Inr (df', g')
           \<and> length (rows df') = length (rows df) \<and> columns df' = columns df"
proof -
  from assms(1) obtain r where r: "py_randint 0 (int (length (rows df)) - 1) g = Inr (int r, rng_next g)"
    using py_randint_row [of "length (rows df)" g] by auto
  show ?thesis
  proof (cases "numeric_cols ct = []")
    case True
    with r show ?thesis by (simp add: range_step_def)
  next
    case False
    from py_choice_mem [OF this] obtain c where
      c: "c \<in> set (numeric_cols ct)" "py_choice (numeric_cols ct) (rng_next g) = Inr (c, rng_next (rng_next g))"
      by blast
    from numeric_lookup [OF assms(2) c(1)] obtain info where
      info: "map_of ct c = Some info" "is_numeric info" "info_ok info" by blast
    from wrong_values_ok [OF info(2,3)] obtain ws where ws: "wrong_values info = Inr ws" "length ws = 5"
      by blast
    then have "ws \<noteq> []" by auto
    from py_choice_ex [OF this] obtain w g3 where
      w: "py_choice ws (rng_next (rng_next g)) = Inr (w, g3)" by blast
    from c(1) assms(3) numeric_cols_subset [of ct] have "c \<in> set (columns df)" by auto
    with r False c(2) info(1) ws(1) w show ?thesis by (simp add: range_step_def at_set_columns)
  qed
qed

lemma range_step_no_numeric:
  assumes "rows df \<noteq> []" and "numeric_cols ct = []"
  shows "range_step ct df g = Inr (df, rng_next g)"
proof -
  from assms(1) obtain r where "py_randint 0 (int (length (rows df)) - 1) g = Inr (int r, rng_next g)"
    using py_randint_row [of "length (rows df)" g] by auto
  with assms(2) show ?thesis by (simp add: range_step_def)
qed

lemma timestamp_step_shape:
  assumes "rows df \<noteq> []" and "datetime_cols ct \<noteq> []" and "columns df = map fst ct"
  shows "\<exists>df' g'. timestamp_step ct df g = Inr (df', g')
           \<and> length (rows df') = length (rows df) \<and> columns df' = columns df"
proof -
  from assms(1) obtain r where r: "py_randint 0 (int (length (rows df)) - 1) g = Inr (int r, rng_next g)"
    using py_randint_row [of "length (rows df)" g] by auto
  from py_choice_mem [OF assms(2)] obtain c where
    c: "c \<in> set (datetime_cols ct)" "py_choice (datetime_cols ct) (rng_next g) = Inr (c, rng_next (rng_next g))"
    by blast
  have "wrong_dates \<noteq> []" by (simp add: wrong_dates_def)
  from py_choice_ex [OF this] obtain w g3 where
    w: "py_choice wrong_dates (rng_next (rng_next g)) = Inr (w, g3)" by blast
  from c(1) assms(3) datetime_cols_subset [of ct] have "c \<in> set (columns df)" by auto
  with r c(2) w show ?thesis by (simp add: timestamp_step_def at_set_columns)
qed

lemma text_step_shape:
  assumes "rows df \<noteq> []" and "text_cols ct \<noteq> []" and "columns df = map fst ct"
  shows "\<exists>df' g'. text_step L ct df g = Inr (df', g')
           \<and> length (rows df') = length (rows df) \<and> columns df' = columns df"
proof -
  from assms(1) obtain r where r: "r < length (rows df)"
    "py_randint 0 (int (length (rows df)) - 1) g = Inr (int r, rng_next g)"
    using py_randint_row [of "length (rows df)" g] by auto
  from py_choice_mem [OF assms(2)] obtain c where
    c: "c \<in> set (text_cols ct)" "py_choice (text_cols ct) (rng_next g) = Inr (c, rng_next (rng_next g))"
    by blast
  from c(1) assms(3) text_cols_subset [of ct] have cin: "c \<in> set (columns df)" by auto
  from row_get_ok [OF this] obtain v where v: "row_get (columns df) (rows df ! r) c = Inr v" by blast
  with r have get: "at_get df r c = Inr v" by (simp add: at_get_def)
  show ?thesis
  proof (cases v)
    case (Str s)
    show ?thesis
    proof (cases "s = []")
      case True
      with r c(2) get Str show ?thesis by (simp add: text_step_def)
    next
      case False
      have "ascii_letters @ digits \<noteq> []" by (simp add: digits_def)
      from py_choices_ok [OF this] obtain junk g3 where
        junk: "py_choices (ascii_letters @ digits) (length s) (rng_next (rng_next g)) = Inr (junk, g3)"
        by blast
      have "[str_upper L s, str_lower L s, s @ ''???'', replace_char (hd s) ''X'' s, rev s, s @ s, '''', junk] \<noteq> []"
        by simp
      from py_choice_ex [OF this] obtain x g4 where x:
        "py_choice [str_upper L s, str_lower L s, s @ ''???'', replace_char (hd s) ''X'' s, rev s, s @ s, '''', junk] g3
           = Inr (x, g4)"
        by blast
      with r c(2) get Str False junk cin show ?thesis
        by (simp add: text_step_def at_set_columns)
    qed
  qed (use r c(2) get in \<open>simp_all add: text_step_def\<close>)
qed

text \<open>A loop of a pass that never runs on an empty table keeps the shape of the table.\<close>

lemma pass_loop_shape:
  assumes "rows df = [] \<Longrightarrow> k = 0"
    and "\<And>d g. rows d \<noteq> [] \<Longrightarrow> columns d = columns df \<Longrightarrow>
           \<exists>d' g'. step d g = Inr (d', g') \<and> length (rows d') = length (rows d) \<and> columns d' = columns d"
  shows "\<exists>df' g'. repeat_m k step df g = Inr (df', g')
           \<and> length (rows df') = length (rows df) \<and> columns df' = columns df"
proof (cases "rows df = []")
  case True
  with assms(1) show ?thesis by simp
next
  case False
  let ?P = "\<lambda>d. length (rows d) = length (rows df) \<and> columns d = columns df"
  have "\<exists>d' g'. step d g = Inr (d', g') \<and> ?P d'" if "?P d" for d g
  proof -
    from that False have "rows d \<noteq> []" by auto
    from assms(2) [OF this, of g] that show ?thesis by auto
  qed
  from repeat_m_inv [of ?P df step, OF _ this] show ?thesis by simp
qed

lemma add_strategic_nulls_shape:
  assumes "fits ct df"
  shows "\<exists>df' g'. add_strategic_nulls ct df rate g = Inr (df', g')
           \<and> length (rows df') = length (rows df) \<and> columns df' = columns df"
proof (cases "rows df = [] \<or> ct = []")
  case True
  with assms have z: "length (rows df) * length (columns df) = 0" by (auto simp: fits_def)
  have "py_count (length (rows df) * length (columns df)) rate = 0"
    unfolding z by (rule py_count_zero)
  then show ?thesis by (simp only: add_strategic_nulls_def Let_def) simp
next
  case False
  then have ne: "rows df \<noteq> []" "ct \<noteq> []" by simp_all
  with assms have cols: "columns df = map fst ct" by (simp add: fits_def)
  have step: "\<exists>d' g'. null_step ct d g = Inr (d', g') \<and> length (rows d') = length (rows d) \<and> columns d' = columns d"
    if "rows d \<noteq> []" "columns d = columns df" for d g
  proof -
    from that(2) cols have "columns d = map fst ct" by (rule trans)
    from null_step_shape [OF that(1) ne(2) this] show ?thesis .
  qed
  have k0: "rows df = [] \<Longrightarrow> k = 0" for k :: nat using ne(1) by simp
  from pass_loop_shape [of df _ "null_step ct" g, OF k0 step]
  show ?thesis unfolding add_strategic_nulls_def Let_def by blast
qed

lemma add_wrong_ranges_shape:
  assumes "fits ct df" and "profile_ok ct"
  shows "\<exists>df' g'. add_wrong_ranges ct df rate g = Inr (df', g')
           \<and> length (rows df') = length (rows df) \<and> columns df' = columns df"
proof (cases "rows df = []")
  case True
  then show ?thesis by (simp add: add_wrong_ranges_def)
next
  case False
  with assms(1) have cols: "columns df = map fst ct" by (simp add: fits_def)
  have step: "\<exists>d' g'. range_step ct d g = Inr (d', g') \<and> length (rows d') = length (rows d) \<and> columns d' = columns d"
    if "rows d \<noteq> []" "columns d = columns df" for d g
  proof -
    from that(2) cols have "columns d = map fst ct" by (rule trans)
    from range_step_shape [OF that(1) assms(2) this] show ?thesis .
  qed
  have k0: "rows df = [] \<Longrightarrow> k = 0" for k :: nat using False by simp
  from pass_loop_shape [of df _ "range_step ct" g, OF k0 step]
  show ?thesis unfolding add_wrong_ranges_def Let_def by blast
qed

lemma add_wrong_ranges_no_numeric:
  assumes "numeric_cols ct = []"
  shows "\<exists>g'. add_wrong_ranges ct df rate g = Inr (df, g')"
proof (cases "rows df = []")
  case True
  then show ?thesis by (simp add: add_wrong_ranges_def)
next
  case False
  have "\<exists>s' g'. range_step ct s g = Inr (s', g') \<and> s' = df" if "s = df" for s g
    using range_step_no_numeric [OF False assms, of g] that by simp
  from repeat_m_inv [of "\<lambda>s. s = df" df "range_step ct", OF refl this]
  show ?thesis unfolding add_wrong_ranges_def Let_def by blast
qed

lemma add_wrong_timestamps_shape:
  assumes "fits ct df"
  shows "\<exists>df' g'. add_wrong_timestamps ct df rate g = Inr (df', g')
           \<and> length (rows df') = length (rows df) \<and> columns df' = columns df"
proof (cases "rows df = [] \<or> datetime_cols ct = []")
  case True
  then show ?thesis by (auto simp: add_wrong_timestamps_def)
next
  case False
  then have ne: "rows df \<noteq> []" "datetime_cols ct \<noteq> []" by simp_all
  with assms have cols: "columns df = map fst ct" by (simp add: fits_def)
  have step: "\<exists>d' g'. timestamp_step ct d g = Inr (d', g') \<and> length (rows d') = length (rows d) \<and> columns d' = columns d"
    if "rows d \<noteq> []" "columns d = columns df" for d g
  proof -
    from that(2) cols have "columns d = map fst ct" by (rule trans)
    from timestamp_step_shape [OF that(1) ne(2) this] show ?thesis .
  qed
  have k0: "rows df = [] \<Longrightarrow> k = 0" for k :: nat using ne(1) by simp
  from pass_loop_shape [of df _ "timestamp_step ct" g, OF k0 step] ne(2)
  show ?thesis unfolding add_wrong_timestamps_def Let_def by (simp only: if_False) blast
qed

lemma add_text_corruption_shape:
  assumes "fits ct df"
  shows "\<exists>df' g'. add_text_corruption L ct df rate g = Inr (df', g')
           \<and> length (rows df') = length (rows df) \<and> columns df' = columns df"
proof (cases "rows df = [] \<or> text_cols ct = []")
  case True
  then show ?thesis by (auto simp: add_text_corruption_def)
next
  case False
  then have ne: "rows df \<noteq> []" "text_cols ct \<noteq> []" by simp_all
  with assms have cols: "columns df = map fst ct" by (simp add: fits_def)
  have step: "\<exists>d' g'. text_step L ct d g = Inr (d', g') \<and> length (rows d') = length (rows d) \<and> columns d' = columns d"
    if "rows d \<noteq> []" "columns d = columns df" for d g
  proof -
    from that(2) cols have "columns d = map fst ct" by (rule trans)
    from text_step_shape [OF that(1) ne(2) this] show ?thesis .
  qed
  have k0: "rows df = [] \<Longrightarrow> k = 0" for k :: nat using ne(1) by simp
  from pass_loop_shape [of df _ "text_step L ct" g, OF k0 step] ne(2)
  show ?thesis unfolding add_text_corruption_def Let_def by (simp only: if_False) blast
qed

lemma fits_same_shape:
  "fits ct df \<Longrightarrow> columns df' = columns df \<Longrightarrow> (rows df = [] \<Longrightarrow> rows df' = []) \<Longrightarrow> fits ct df'"
  by (auto simp: fits_def)

section \<open>The shuffle\<close>

lemma shuffle_mset: "length xs \<le> n \<Longrightarrow> mset (fst (shuffle n xs g)) = mset xs"
proof (induction n arbitrary: xs g)
  case 0
  then show ?case by simp
next
  case (Suc n)
  show ?case
  proof (cases "xs = []")
    case True
    then show ?thesis by simp
  next
    case False
    let ?i = "g 0 mod length xs"
    let ?rest = "take ?i xs @ drop (Suc ?i) xs"
    from False have i: "?i < length xs" by simp
    then have "length ?rest \<le> n" using Suc.prems by simp
    obtain ys g' where sh: "shuffle n ?rest (rng_next g) = (ys, g')"
      by (cases "shuffle n ?rest (rng_next g)")
    from Suc.IH [OF \<open>length ?rest \<le> n\<close>, of "rng_next g"] sh
    have ys: "mset ys = mset ?rest" by simp
    have e: "add_mset (xs ! ?i) (mset ?rest) = mset xs"
    proof -
      from id_take_nth_drop [OF i]
      have "mset xs = mset (take ?i xs @ xs ! ?i # drop (Suc ?i) xs)" by (rule arg_cong)
      then show ?thesis by simp
    qed
    have "mset (fst (shuffle (Suc n) xs g)) = add_mset (xs ! ?i) (mset ys)"
      using False sh by (simp add: Let_def)
    also have "\<dots> = add_mset (xs ! ?i) (mset ?rest)" by (simp only: ys)
    also have "\<dots> = mset xs" by (rule e)
    finally show ?thesis .
  qed
qed

lemma shuffle_length: "length xs \<le> n \<Longrightarrow> length (fst (shuffle n xs g)) = length xs"
  using shuffle_mset [of xs n g] by (metis size_mset)

lemma sample_frac1_shape:
  "length (rows (fst (sample_frac1 df g))) = length (rows df)
   \<and> columns (fst (sample_frac1 df g)) = columns df
   \<and> mset (rows (fst (sample_frac1 df g))) = mset (rows df)"
proof -
  obtain rs g' where sh: "shuffle (length (rows df)) (rows df) g = (rs, g')"
    by (cases "shuffle (length (rows df)) (rows df) g")
  with shuffle_mset [of "rows df" "length (rows df)" g] shuffle_length [of "rows df" "length (rows df)" g]
  show ?thesis by (simp add: sample_frac1_def)
qed

section \<open>The whole pipeline\<close>

text \<open>
  The five passes in a row: each returns, every table after the first pass has the
  row count that the first pass left, and the columns never change.
\<close>

lemma introduce_messiness_chain:
  assumes "valid_rate (duplicate_rate rs)" and "fits ct df" and "profile_ok ct"
  shows "\<exists>d1 g1 d2 g2 d3 g3 d4 g4 d5 g5.
           add_smart_duplicates L ct df (duplicate_rate rs) g = Inr (d1, g1)
         \<and> add_strategic_nulls ct d1 (null_rate rs) g1 = Inr (d2, g2)
         \<and> add_wrong_ranges ct d2 (wrong_range_rate rs) g2 = Inr (d3, g3)
         \<and> add_wrong_timestamps ct d3 (wrong_timestamp_rate rs) g3 = Inr (d4, g4)
         \<and> add_text_corruption L ct d4 (text_corruption_rate rs) g4 = Inr (d5, g5)
         \<and> introduce_messiness L ct df rs g = Inr (d5, g5)
         \<and> int (length (rows d1)) = int (length (rows df)) + py_count (length (rows df)) (duplicate_rate rs)
         \<and> length (rows d2) = length (rows d1) \<and> length (rows d3) = length (rows d1)
         \<and> length (rows d4) = length (rows d1) \<and> length (rows d5) = length (rows d1)
         \<and> columns d1 = columns df \<and> columns d2 = columns df \<and> columns d3 = columns df
         \<and> columns d4 = columns df \<and> columns d5 = columns df"
proof -
  from add_smart_duplicates_shape [OF assms(1,2), of L g] obtain d1 g1 where
    d1: "add_smart_duplicates L ct df (duplicate_rate rs) g = Inr (d1, g1)"
    "int (length (rows d1)) = int (length (rows df)) + py_count (length (rows df)) (duplicate_rate rs)"
    "columns d1 = columns df" by blast
  have "rows df = [] \<Longrightarrow> rows d1 = []" using d1(2) by simp
  from fits_same_shape [OF assms(2) d1(3) this] have f1: "fits ct d1" by simp
  from add_strategic_nulls_shape [OF f1, of "null_rate rs" g1] obtain d2 g2 where
    d2: "add_strategic_nulls ct d1 (null_rate rs) g1 = Inr (d2, g2)"
    "length (rows d2) = length (rows d1)" "columns d2 = columns d1" by blast
  have "rows d1 = [] \<Longrightarrow> rows d2 = []" using d2(2) by simp
  from fits_same_shape [OF f1 d2(3) this] have f2: "fits ct d2" by simp
  from add_wrong_ranges_shape [OF f2 assms(3), of "wrong_range_rate rs" g2] obtain d3 g3 where
    d3: "add_wrong_ranges ct d2 (wrong_range_rate rs) g2 = Inr (d3, g3)"
    "length (rows d3) = length (rows d2)" "columns d3 = columns d2" by blast
  have "rows d2 = [] \<Longrightarrow> rows d3 = []" using d3(2) by simp
  from fits_same_shape [OF f2 d3(3) this] have f3: "fits ct d3" by simp
  from add_wrong_timestamps_shape [OF f3, of "wrong_timestamp_rate rs" g3] obtain d4 g4 where
    d4: "add_wrong_timestamps ct d3 (wrong_timestamp_rate rs) g3 = Inr (d4, g4)"
    "length (rows d4) = length (rows d3)" "columns d4 = columns d3" by blast
  have "rows d3 = [] \<Longrightarrow> rows d4 = []" using d4(2) by simp
  from fits_same_shape [OF f3 d4(3) this] have f4: "fits ct d4" by simp
  from add_text_corruption_shape [OF f4, of L "text_corruption_rate rs" g4] obtain d5 g5 where
    d5: "add_text_corruption L ct d4 (text_corruption_rate rs) g4 = Inr (d5, g5)"
    "length (rows d5) = length (rows d4)" "columns d5 = columns d4" by blast
  have im: "introduce_messiness L ct df rs g = Inr (d5, g5)"
    by (simp add: introduce_messiness_def d1(1) d2(1) d3(1) d4(1) d5(1))
  have l: "length (rows d3) = length (rows d1)" "length (rows d4) = length (rows d1)"
    "length (rows d5) = length (rows d1)"
    using d2(2) d3(2) d4(2) d5(2) by simp_all
  have c: "columns d2 = columns df" "columns d3 = columns df" "columns d4 = columns df"
    "columns d5 = columns df"
    using d1(3) d2(3) d3(3) d4(3) d5(3) by simp_all
  from d1 d2(1,2) d3(1) d4(1) d5(1) im l c show ?thesis by blast
qed

lemma introduce_messiness_shape:
  assumes "valid_rate (duplicate_rate rs)" and "fits ct df" and "profile_ok ct"
  shows "\<exists>d5 g5. introduce_messiness L ct df rs g = Inr (d5, g5)
         \<and> int (length (rows d5)) = int (length (rows df)) + py_count (length (rows df)) (duplicate_rate rs)
         \<and> columns d5 = columns df"
proof -
  from introduce_messiness_chain [OF assms, of L g] obtain d1 g1 d2 g2 d3 g3 d4 g4 d5 g5 where
    c: "add_smart_duplicates L ct df (duplicate_rate rs) g = Inr (d1, g1)
         \<and> add_strategic_nulls ct d1 (null_rate rs) g1 = Inr (d2, g2)
         \<and> add_wrong_ranges ct d2 (wrong_range_rate rs) g2 = Inr (d3, g3)
         \<and> add_wrong_timestamps ct d3 (wrong_timestamp_rate rs) g3 = Inr (d4, g4)
         \<and> add_text_corruption L ct d4 (text_corruption_rate rs) g4 = Inr (d5, g5)
         \<and> introduce_messiness L ct df rs g = Inr (d5, g5)
         \<and> int (length (rows d1)) = int (length (rows df)) + py_count (length (rows df)) (duplicate_rate rs)
         \<and> length (rows d2) = length (rows d1) \<and> length (rows d3) = length (rows d1)
         \<and> length (rows d4) = length (rows d1) \<and> length (rows d5) = length (rows d1)
         \<and> columns d1 = columns df \<and> columns d2 = columns df \<and> columns d3 = columns df
         \<and> columns d4 = columns df \<and> columns d5 = columns df"
    by (elim exE) 
  then have "introduce_messiness L ct df rs g = Inr (d5, g5)"
    "int (length (rows d5)) = int (length (rows df)) + py_count (length (rows df)) (duplicate_rate rs)"
    "columns d5 = columns df" by simp_all
  then show ?thesis by blast
qed

lemma fits_expand:
  assumes "expand_data ct target_rows g = Inr (df, g')"
    and "list_all (\<lambda>(col, info). info_ok info) ct"
  shows "fits ct df \<and> length (rows df) = nat target_rows"
  using expand_data_shape [OF assms(2), of target_rows g] assms(1)
  by (auto simp: fits_def)

lemma generate_messy_data_shape:
  assumes "valid_rate (duplicate_rate rs)" and "profile_ok ct"
  shows "\<exists>df g'. generate_messy_data L ct target_rows rs g = Inr (df, g')
           \<and> int (length (rows df)) = int (nat target_rows) + py_count (nat target_rows) (duplicate_rate rs)
           \<and> columns df = (if target_rows \<le> 0 then [] else map fst ct)"
proof -
  from assms(2) have ok: "list_all (\<lambda>(col, info). info_ok info) ct" by (simp add: profile_ok_def)
  from expand_data_shape [OF ok, of target_rows g] obtain d0 g0 where
    d0: "expand_data ct target_rows g = Inr (d0, g0)" "length (rows d0) = nat target_rows"
    "columns d0 = (if target_rows \<le> 0 then [] else map fst ct)" by blast
  from fits_expand [OF d0(1) ok] have f0: "fits ct d0" by simp
  from introduce_messiness_shape [OF assms(1) f0 assms(2), of L g0] obtain d5 g5 where
    d5: "introduce_messiness L ct d0 rs g0 = Inr (d5, g5)"
    "int (length (rows d5)) = int (length (rows d0)) + py_count (length (rows d0)) (duplicate_rate rs)"
    "columns d5 = columns d0" by blast
  obtain d6 g6 where d6: "sample_frac1 d5 g5 = (d6, g6)" by (cases "sample_frac1 d5 g5")
  with sample_frac1_shape [of d5 g5] have s: "length (rows d6) = length (rows d5)" "columns d6 = columns d5"
    by simp_all
  have "generate_messy_data L ct target_rows rs g = Inr (d6, g6)"
    by (simp add: generate_messy_data_def d0(1) d5(1) d6)
  moreover have "int (length (rows d6)) = int (nat target_rows) + py_count (nat target_rows) (duplicate_rate rs)"
    using s(1) d5(2) d0(2) by simp
  moreover have "columns d6 = (if target_rows \<le> 0 then [] else map fst ct)"
    using s(2) d5(3) d0(3) by simp
  ultimately show ?thesis by blast
qed

lemma rng_next_const: "rng_next (\<lambda>i. c) = (\<lambda>i. c)"
  by (simp add: rng_next_def)

lemma py_count_rate_zero: "py_count n 0 = 0"
  by (simp add: py_count_def py_int_def)

section \<open>Runs on a constant random source\<close>

lemma repeat_m_fixed:
  assumes "f s g = Inr (s, g)"
  shows "repeat_m n f s g = Inr (s, g)"
  by (induction n) (simp_all add: assms)

lemma shuffle_const: "length xs \<le> n \<Longrightarrow> shuffle n xs (\<lambda>i. 0) = (xs, \<lambda>i. 0)"
proof (induction n arbitrary: xs)
  case 0
  then show ?case by simp
next
  case (Suc n)
  show ?case
  proof (cases xs)
    case Nil
    then show ?thesis by simp
  next
    case (Cons x rest)
    with Suc.prems have "length rest \<le> n" by simp
    from Suc.IH [OF this] Cons show ?thesis by (simp add: rng_next_const)
  qed
qed

lemma sample_frac1_const: "sample_frac1 df (\<lambda>i. 0) = (df, \<lambda>i. 0)"
  by (simp add: sample_frac1_def shuffle_const)

lemma expanded_records_const:
  assumes "new_record ct (\<lambda>i. 0) = Inr (r, \<lambda>i. 0)"
  shows "expanded_records ct n (\<lambda>i. 0) = Inr (replicate n r, \<lambda>i. 0)"
  by (induction n) (simp_all add: assms)

lemma py_random_const: "py_random (\<lambda>i. 0) = (0, \<lambda>i. 0)"
  by (simp add: py_random_def rng_next_const)

lemma py_choice_const: "xs \<noteq> [] \<Longrightarrow> py_choice xs (\<lambda>i. 0) = Inr (hd xs, \<lambda>i. 0)"
  by (cases xs) (simp_all add: py_choice_def rng_next_const)

lemma py_randint_const: "a \<le> b \<Longrightarrow> py_randint a b (\<lambda>i. 0) = Inr (a, \<lambda>i. 0)"
  by (simp add: py_randint_def rng_next_const)

lemma rate_zero_passes:
  "add_smart_duplicates L ct df 0 g = Inr (df, g)"
  "add_strategic_nulls ct df 0 g = Inr (df, g)"
  "add_wrong_ranges ct df 0 g = Inr (df, g)"
  "add_wrong_timestamps ct df 0 g = Inr (df, g)"
  "add_text_corruption L ct df 0 g = Inr (df, g)"
  by (simp_all add: add_smart_duplicates_def add_strategic_nulls_def add_wrong_ranges_def
      add_wrong_timestamps_def add_text_corruption_def py_count_rate_zero np_choice_def)

section \<open>The range-violation pass\<close>

lemma sint_diff_small:
  fixes a b :: int64
  assumes "- (2 ^ 63) \<le> sint a - sint b" and "sint a - sint b < 2 ^ 63"
  shows "sint (a - b) = sint a - sint b"
  using assms by (simp add: sint_word_ariths signed_take_bit_int_eq_self)

lemma sint_sum_small:
  fixes a b :: int64
  assumes "- (2 ^ 63) \<le> sint a + sint b" and "sint a + sint b < 2 ^ 63"
  shows "sint (a + b) = sint a + sint b"
  using assms by (simp add: sint_word_ariths signed_take_bit_int_eq_self)

lemma wrong_values_int:
  fixes mn mx :: int64
  assumes "- (2 ^ 61) \<le> sint mn" and "sint mn \<le> sint mx" and "sint mx < 2 ^ 61"
  shows "wrong_values (NumericI mn mx xs) =
           Inr [Num (rat_of_int (sint mn - \<bar>sint mx - sint mn\<bar>)),
                Num (rat_of_int (sint mx + \<bar>sint mx - sint mn\<bar>)),
                Num (- 999999), Num 999999,
                (if 0 < sint mn then Num 0 else Num (- 1))]"
proof -
  have d: "sint (mx - mn) = sint mx - sint mn"
    using assms by (intro sint_diff_small) simp_all
  with assms(2) have a: "abs64 (mx - mn) = mx - mn" by (simp add: abs64_def)
  have lo: "sint (mn - (mx - mn)) = sint mn - (sint mx - sint mn)"
    using assms d by (subst sint_diff_small) simp_all
  have hi: "sint (mx + (mx - mn)) = sint mx + (sint mx - sint mn)"
    using assms d by (subst sint_sum_small) simp_all
  from assms(2) have "\<bar>sint mx - sint mn\<bar> = sint mx - sint mn" by simp
  with a lo hi show ?thesis by (simp add: cell_of_int64_def)
qed

lemma wrong_values_10_20:
  "wrong_values (NumericI 10 20 xs) = Inr [Num 0, Num 30, Num (- 999999), Num 999999, Num 0]"
  by (simp add: cell_of_int64_def abs64_def)

lemma range_step_draw:
  assumes "profile_ok ct" and "rows df \<noteq> []" and "numeric_cols ct \<noteq> []"
  shows "\<exists>info ws. map_of ct (pick (numeric_cols ct) (rng_next g)) = Some info
           \<and> is_numeric info \<and> wrong_values info = Inr ws \<and> length ws = 5
           \<and> range_step ct df g =
               Inr (at_set df (g 0 mod length (rows df)) (pick (numeric_cols ct) (rng_next g))
                      (pick ws (rng_next (rng_next g))),
                    rng_next (rng_next (rng_next g)))"
proof -
  let ?c = "pick (numeric_cols ct) (rng_next g)"
  from assms(2) have r: "py_randint 0 (int (length (rows df)) - 1) g
      = Inr (int (g 0 mod length (rows df)), rng_next g)"
    by (simp add: py_randint_def)
  from pick_mem [OF assms(3)] have "?c \<in> set (numeric_cols ct)" .
  from numeric_lookup [OF assms(1) this] obtain info where
    info: "map_of ct ?c = Some info" "is_numeric info" "info_ok info" by blast
  from wrong_values_ok [OF info(2,3)] obtain ws where ws: "wrong_values info = Inr ws" "length ws = 5"
    by blast
  then have ne: "ws \<noteq> []" by auto
  have "range_step ct df g =
          Inr (at_set df (g 0 mod length (rows df)) ?c (pick ws (rng_next (rng_next g))),
               rng_next (rng_next (rng_next g)))"
    by (simp add: range_step_def r assms(3) py_choice_pick info(1) ws(1) ne)
  with info(1,2) ws show ?thesis by blast
qed

section \<open>The claims of the specification\<close>

text \<open>
  C1. The expansion step is asked for a table with exactly \<open>target_rows\<close> rows and the
  columns of the sample, also for \<open>target_rows = 0\<close>. For the sample with the one column
  \<open>id\<close> of the integers 10 and 20 and \<open>target_rows = 0\<close> the list of records is
  empty, and the table built from it has no rows and no columns: the column \<open>id\<close> is
  lost.
\<close>

theorem expand_data_zero_rows_drops_columns:
  "analyze_columns [(''id'', IntCol [10, 20])] = Inr [(''id'', NumericI 10 20 [10, 20])]
   \<and> expand_data [(''id'', NumericI 10 20 [10, 20])] 0 (\<lambda>i. 0)
       = Inr (\<lparr>columns = [], rows = []\<rparr>, \<lambda>i. 0)
   \<and> map fst [(''id'', IntCol [10, 20])] \<noteq> []"
  by (simp add: expand_data_def DataFrame_def sle_def)

text \<open>
  C5. The profiler is asked to classify every column of the sample. For the sample
  with the one column \<open>tags\<close> of dtype object that holds two lists, \<open>unique()\<close> raises
  TypeError, and the constructor of the generator fails with it: the column gets no
  profile.
\<close>

theorem analyze_columns_unhashable_fails:
  "analyze_columns [(''tags'', ObjCol [Unhashable 0, Unhashable 1])] = Inl TypeError"
  by simp

text \<open>
  C6. A numeric profile is asked to yield a sample or a uniform draw from
  \<open>[min, max]\<close>. The profile of the column \<open>active\<close> of the truth values True and False
  is numeric, with minimum False and maximum True; when the unit draw is not below 0.7
  (here it is \<open>1 - 2^-53\<close>) the interpolation between the two raises TypeError, and no
  value is produced.
\<close>

theorem generate_similar_value_bool_fails:
  "analyze_columns [(''active'', BoolCol [True, False])]
     = Inr [(''active'', NumericB False True [True, False])]
   \<and> unit_draw (\<lambda>i. 9007199254740991) = 9007199254740991 / 9007199254740992
   \<and> generate_similar_value (NumericB False True [True, False]) (\<lambda>i. 9007199254740991)
       = Inl TypeError"
  by (simp add: generate_similar_value_def py_random_def unit_draw_def lit_0_7_def)

text \<open>
  C8. For every table and every rate in [0,1]: with no numeric column in the profile
  map the range-violation pass returns its input table unchanged, with no datetime
  column the timestamp-violation pass does, and with no text or categorical column
  the text-corruption pass does; none of them fails. The profile map is any map, that
  of a sample included.
\<close>

theorem passes_without_their_kind_are_noops:
  assumes "valid_rate rate"
  shows "(numeric_cols column_types = [] \<longrightarrow>
            (\<exists>g'. add_wrong_ranges column_types df rate g = Inr (df, g')))
       \<and> (datetime_cols column_types = [] \<longrightarrow>
            add_wrong_timestamps column_types df rate g = Inr (df, g))
       \<and> (text_cols column_types = [] \<longrightarrow>
            add_text_corruption L column_types df rate g = Inr (df, g))"
  using add_wrong_ranges_no_numeric [of column_types df rate g]
  by (simp add: add_wrong_timestamps_def add_text_corruption_def Let_def)

theorem passes_without_their_kind_are_noops_witness:
  "valid_rate (1 / 2)
   \<and> analyze_columns [(''note'', ObjCol [Null])] = Inr [(''note'', Mixed [])]
   \<and> numeric_cols [(''note'', Mixed [])] = []
   \<and> datetime_cols [(''note'', Mixed [])] = []
   \<and> text_cols [(''note'', Mixed [])] = []
   \<and> (\<exists>g'. add_wrong_ranges [(''note'', Mixed [])]
              \<lparr>columns = [''note''], rows = [[Null], [Null]]\<rparr> (1 / 2) (\<lambda>i. 0)
            = Inr (\<lparr>columns = [''note''], rows = [[Null], [Null]]\<rparr>, g'))
   \<and> add_wrong_timestamps [(''note'', Mixed [])]
        \<lparr>columns = [''note''], rows = [[Null], [Null]]\<rparr> (1 / 2) (\<lambda>i. 0)
      = Inr (\<lparr>columns = [''note''], rows = [[Null], [Null]]\<rparr>, \<lambda>i. 0)
   \<and> add_text_corruption ascii_case [(''note'', Mixed [])]
        \<lparr>columns = [''note''], rows = [[Null], [Null]]\<rparr> (1 / 2) (\<lambda>i. 0)
      = Inr (\<lparr>columns = [''note''], rows = [[Null], [Null]]\<rparr>, \<lambda>i. 0)"
proof -
  have v: "valid_rate (1 / 2)" by (simp add: valid_rate_def)
  have a: "analyze_columns [(''note'', ObjCol [Null])] = Inr [(''note'', Mixed [])]" by simp
  have e: "numeric_cols [(''note'', Mixed [])] = []"
    "datetime_cols [(''note'', Mixed [])] = []"
    "text_cols [(''note'', Mixed [])] = []"
    by (simp_all add: numeric_cols_def datetime_cols_def text_cols_def)
  from passes_without_their_kind_are_noops [OF v, of "[(''note'', Mixed [])]"
      "\<lparr>columns = [''note''], rows = [[Null], [Null]]\<rparr>" "\<lambda>i. 0" ascii_case] v a e
  show ?thesis by simp
qed

text \<open>
  C10. For rates in [0,1], \<open>target_rows \<ge> 0\<close> and a sample with distinct column
  labels and no column of truth values whose profile map the constructor has
  computed: the run returns a table with exactly
  \<open>target_rows + int(target_rows * duplicate_rate)\<close> rows, the product being the
  rounded product of doubles and \<open>int\<close> its truncation; and on a table that fits the
  profile map the null-injection, the range-violation, the timestamp-violation and
  the text-corruption pass each return a table with as many rows as their input, and
  so does the final shuffle.
\<close>

theorem pipeline_row_count:
  assumes "valid_rates rs" and "distinct (map fst sample_df)" and "0 \<le> target_rows"
    and "no_bool_column sample_df" and "analyze_columns sample_df = Inr column_types"
  shows "(\<exists>df g'. generate_messy_data L column_types target_rows rs g = Inr (df, g')
            \<and> int (length (rows df)) = target_rows + py_count (nat target_rows) (duplicate_rate rs))
       \<and> (\<forall>d rate h. valid_rate rate \<and> fits column_types d \<longrightarrow>
            (\<exists>d' h'. add_strategic_nulls column_types d rate h = Inr (d', h')
               \<and> length (rows d') = length (rows d))
          \<and> (\<exists>d' h'. add_wrong_ranges column_types d rate h = Inr (d', h')
               \<and> length (rows d') = length (rows d))
          \<and> (\<exists>d' h'. add_wrong_timestamps column_types d rate h = Inr (d', h')
               \<and> length (rows d') = length (rows d))
          \<and> (\<exists>d' h'. add_text_corruption L column_types d rate h = Inr (d', h')
               \<and> length (rows d') = length (rows d))
          \<and> length (rows (fst (sample_frac1 d h))) = length (rows d))"
proof (intro conjI allI impI)
  from profile_ok_analyze [OF assms(5,4,2)] have ok: "profile_ok column_types" .
  from assms(1) have r: "valid_rate (duplicate_rate rs)" by (simp add: valid_rates_def)
  from generate_messy_data_shape [OF r ok, of L target_rows g] obtain df g' where
    df: "generate_messy_data L column_types target_rows rs g = Inr (df, g')"
    "int (length (rows df)) = int (nat target_rows) + py_count (nat target_rows) (duplicate_rate rs)"
    by blast
  from df(2) assms(3)
  have "int (length (rows df)) = target_rows + py_count (nat target_rows) (duplicate_rate rs)"
    by simp
  with df(1) show "\<exists>df g'. generate_messy_data L column_types target_rows rs g = Inr (df, g')
            \<and> int (length (rows df)) = target_rows + py_count (nat target_rows) (duplicate_rate rs)"
    by blast
next
  fix d rate h assume a: "valid_rate rate \<and> fits column_types d"
  then have f: "fits column_types d" by simp
  from add_strategic_nulls_shape [OF f, of rate h]
  show "\<exists>d' h'. add_strategic_nulls column_types d rate h = Inr (d', h')
               \<and> length (rows d') = length (rows d)" by blast
next
  fix d rate h assume a: "valid_rate rate \<and> fits column_types d"
  then have f: "fits column_types d" by simp
  from profile_ok_analyze [OF assms(5,4,2)] have ok: "profile_ok column_types" .
  from add_wrong_ranges_shape [OF f ok, of rate h]
  show "\<exists>d' h'. add_wrong_ranges column_types d rate h = Inr (d', h')
               \<and> length (rows d') = length (rows d)" by blast
next
  fix d rate h assume a: "valid_rate rate \<and> fits column_types d"
  then have f: "fits column_types d" by simp
  from add_wrong_timestamps_shape [OF f, of rate h]
  show "\<exists>d' h'. add_wrong_timestamps column_types d rate h = Inr (d', h')
               \<and> length (rows d') = length (rows d)" by blast
next
  fix d rate h assume a: "valid_rate rate \<and> fits column_types d"
  then have f: "fits column_types d" by simp
  from add_text_corruption_shape [OF f, of L rate h]
  show "\<exists>d' h'. add_text_corruption L column_types d rate h = Inr (d', h')
               \<and> length (rows d') = length (rows d)" by blast
next
  fix d :: frame and h :: rng
  show "length (rows (fst (sample_frac1 d h))) = length (rows d)"
    using sample_frac1_shape [of d h] by simp
qed

theorem pipeline_row_count_witness:
  "valid_rates \<lparr>duplicate_rate = 1 / 2, null_rate = 1 / 10, wrong_range_rate = 1, wrong_timestamp_rate = 0,
      text_corruption_rate = 1 / 20\<rparr>
   \<and> distinct (map fst [(''id'', IntCol [1, 5]), (''name'', ObjCol [Str ''Alice'', Str ''Bob''])])
   \<and> no_bool_column [(''id'', IntCol [1, 5]), (''name'', ObjCol [Str ''Alice'', Str ''Bob''])]
   \<and> analyze_columns [(''id'', IntCol [1, 5]), (''name'', ObjCol [Str ''Alice'', Str ''Bob''])]
       = Inr [(''id'', NumericI 1 5 [1, 5]),
              (''name'', Text [Str ''Alice'', Str ''Bob''] [Str ''Alice'', Str ''Bob''])]
   \<and> (\<exists>df g'. generate_messy_data ascii_case
          [(''id'', NumericI 1 5 [1, 5]),
           (''name'', Text [Str ''Alice'', Str ''Bob''] [Str ''Alice'', Str ''Bob''])] 100
          \<lparr>duplicate_rate = 1 / 2, null_rate = 1 / 10, wrong_range_rate = 1, wrong_timestamp_rate = 0,
            text_corruption_rate = 1 / 20\<rparr> (\<lambda>i. 7 * i + 3) = Inr (df, g')
        \<and> int (length (rows df)) = 150)"
proof -
  let ?rs = "\<lparr>duplicate_rate = 1 / 2, null_rate = 1 / 10, wrong_range_rate = 1, wrong_timestamp_rate = 0,
      text_corruption_rate = 1 / 20 :: rat\<rparr>"
  let ?s = "[(''id'', IntCol [1, 5]), (''name'', ObjCol [Str ''Alice'', Str ''Bob''])]"
  let ?ct = "[(''id'', NumericI 1 5 [1, 5]),
              (''name'', Text [Str ''Alice'', Str ''Bob''] [Str ''Alice'', Str ''Bob''])]"
  have v: "valid_rates ?rs" by (simp add: valid_rates_def valid_rate_def)
  have d: "distinct (map fst ?s)" by simp
  have n: "no_bool_column ?s" by (simp add: no_bool_column_def)
  have r2: "rd 2 = 2" by code_simp
  have u: "unique [Str ''Alice'', Str ''Bob''] = [Str ''Alice'', Str ''Bob'']"
    by (simp add: unique_def)
  have "rd (2 * lit_0_8) = 3602879701896397 / 2251799813685248" by code_simp
  then have a: "analyze_columns ?s = Inr ?ct"
    by (simp add: sle_def Let_def r2 u)
  have c: "py_count 100 (1 / 2) = 50" by code_simp
  from pipeline_row_count [OF v d _ n a, of 100 ascii_case "\<lambda>i. 7 * i + 3"] c v d n a
  show ?thesis by simp
qed

theorem pipeline_row_count_counterexample:
  "analyze_columns [(''id'', IntCol [10, 20])] = Inr [(''id'', NumericI 10 20 [10, 20])]
   \<and> row_count (generate_messy_data ascii_case [(''id'', NumericI 10 20 [10, 20])] 3
        \<lparr>duplicate_rate = 6004799503160661 / 18014398509481984, null_rate = 0, wrong_range_rate = 0,
          wrong_timestamp_rate = 0, text_corruption_rate = 0\<rparr> (\<lambda>i. 0)) = Inr 4
   \<and> 3 + \<lfloor>3 * (6004799503160661 / 18014398509481984 :: rat)\<rfloor> = 3"
proof -
  let ?rs = "\<lparr>duplicate_rate = 6004799503160661 / 18014398509481984, null_rate = 0, wrong_range_rate = 0,
          wrong_timestamp_rate = 0, text_corruption_rate = 0 :: rat\<rparr>"
  let ?ct = "[(''id'', NumericI 10 20 [10, 20])]"
  have a: "analyze_columns [(''id'', IntCol [10, 20])] = Inr ?ct" by (simp add: sle_def)
  have ok: "profile_ok ?ct" by (simp add: profile_ok_def)
  have r: "valid_rate (duplicate_rate ?rs)" by (simp add: valid_rate_def)
  have c: "py_count 3 (6004799503160661 / 18014398509481984) = 1" by code_simp
  from generate_messy_data_shape [OF r ok, of ascii_case 3 "\<lambda>i. 0"] obtain df g' where
    df: "generate_messy_data ascii_case ?ct 3 ?rs (\<lambda>i. 0) = Inr (df, g')"
    "int (length (rows df)) = int (nat 3) + py_count (nat 3) (duplicate_rate ?rs)" by blast
  from df(2) c have "length (rows df) = 4" by simp
  with df(1) have b: "row_count (generate_messy_data ascii_case ?ct 3 ?rs (\<lambda>i. 0)) = Inr 4"
    by (simp add: row_count_def)
  have f: "3 + \<lfloor>3 * (6004799503160661 / 18014398509481984 :: rat)\<rfloor> = 3"
    by (simp add: floor_eq_iff)
  from a b f show ?thesis by simp
qed

text \<open>
  C7. The column set of the table is asked to be the same at every stage of a run. For
  the sample with the one column \<open>id\<close> and \<open>target_rows = 0\<close> the run returns a table
  without columns: the expansion has dropped the column \<open>id\<close> of the sample, and the
  later stages work on a table that has none.
\<close>

theorem run_with_zero_rows_has_no_columns:
  "run_generator ascii_case [(''id'', IntCol [10, 20])] 0
     \<lparr>duplicate_rate = 1 / 8, null_rate = 1 / 8, wrong_range_rate = 1 / 16,
       wrong_timestamp_rate = 1 / 16, text_corruption_rate = 1 / 16\<rparr> (\<lambda>i. 0)
     = Inr (\<lparr>columns = [], rows = []\<rparr>, \<lambda>i. 0)
   \<and> map fst [(''id'', IntCol [10, 20])] = [''id'']"
  by (simp add: run_generator_def generate_messy_data_def expand_data_def DataFrame_def sle_def
      introduce_messiness_def add_smart_duplicates_def add_strategic_nulls_def add_wrong_ranges_def
      add_wrong_timestamps_def add_text_corruption_def np_choice_def sample_frac1_def
      datetime_cols_def text_cols_def Let_def)







end
